theory Spec2Isabelle
  imports
    Complex_Main
    "HOL-Library.List_Lexorder"
    "HOL-Library.Product_Lexorder"
    "HOL-Library.Multiset"
    "HOL-Library.Sublist"
    "HOL-Library.AList"
begin

section \<open>Data model\<close>

text \<open>
  The program is one Streamlit script, \<^verbatim>\<open>src/app.py\<close>: it loads a table of monthly
  passenger counts per station, filters it by the stations and the date interval chosen
  in the sidebar, and renders nine sections from the filtered table.

  A Python \<^verbatim>\<open>str\<close> is a sequence of Unicode code points, compared lexicographically by
  code point; it is modelled as a list of naturals under the lexicographic order on lists.
  A \<^verbatim>\<open>datetime.date\<close> is the triple (year, month, day) under the lexicographic order on
  triples, which is the chronological order.
\<close>

type_synonym str = "nat list"

type_synonym date = "nat \<times> nat \<times> nat"

text \<open>
  A pandas \<^verbatim>\<open>Timestamp\<close>, by its calendar fields and the time elapsed since midnight.
\<close>

record timestamp =
  year :: nat
  month :: nat
  day :: nat
  time_of_day :: nat

text \<open>\<^verbatim>\<open>.dt.date\<close>: the calendar date of a timestamp, without the time of day.\<close>

definition dt_date :: "timestamp \<Rightarrow> date" where
  "dt_date t = (year t, month t, day t)"

text \<open>
  The four count columns are \<^verbatim>\<open>int64\<close> columns, as \<^verbatim>\<open>read_csv\<close> makes them for
  integer data. A count is the signed value of a 64-bit word: an integer from
  \<^verbatim>\<open>-2^63\<close> to \<^verbatim>\<open>2^63 - 1\<close>. Sums, additions and subtractions of such columns are
  done in 64 bits and wrap around; \<open>wrap64\<close> gives the signed value of the low 64 bits
  of the exact result.
\<close>

definition int64 :: "int \<Rightarrow> bool" where
  "int64 v \<longleftrightarrow> - 9223372036854775808 \<le> v \<and> v < 9223372036854775808"

definition wrap64 :: "int \<Rightarrow> int" where
  "wrap64 v = (v + 9223372036854775808) mod 18446744073709551616 - 9223372036854775808"

text \<open>
  One row of the table the script loads: the six columns it reads. The row labels (the
  index) are left out: every element-wise operation of the script combines columns of
  one and the same frame, which pandas aligns label by label, that is row by row.
\<close>

record row =
  period :: timestamp
  station :: str
  boarding_down :: int
  alighting_down :: int
  boarding_up :: int
  alighting_up :: int

type_synonym frame = "row list"


definition nonneg_row :: "row \<Rightarrow> bool" where
  "nonneg_row r \<longleftrightarrow>
     0 \<le> boarding_down r \<and> 0 \<le> alighting_down r \<and>
     0 \<le> boarding_up r \<and> 0 \<le> alighting_up r"

text \<open>
  The floating-point arithmetic of pandas is not modelled. The two places where the
  script gets a \<^verbatim>\<open>float64\<close> from the library are parameters: the mean of a group of 64-bit
  integers, as \<^verbatim>\<open>.mean()\<close> returns it, and \<^verbatim>\<open>.round(0).astype(int)\<close> of such a number.
\<close>

record 'f numlib =
  mean_f64 :: "int list \<Rightarrow> 'f"
  round_int :: "'f \<Rightarrow> int"

section \<open>Boolean masks and the filter (lines 54-56)\<close>

text \<open>\<^verbatim>\<open>series.isin(values)\<close>: element-wise membership.\<close>

definition isin :: "'a list \<Rightarrow> 'a list \<Rightarrow> bool list" where
  "isin col vals = map (\<lambda>v. v \<in> set vals) col"

text \<open>\<^verbatim>\<open>mask1 & mask2\<close>: element-wise conjunction of two masks over the same rows.\<close>

definition mask_and :: "bool list \<Rightarrow> bool list \<Rightarrow> bool list" where
  "mask_and m1 m2 = map2 (\<and>) m1 m2"

text \<open>\<^verbatim>\<open>df[mask]\<close>: a new frame of the rows whose mask entry is true, in row order.\<close>

definition select_rows :: "'a list \<Rightarrow> bool list \<Rightarrow> 'a list" where
  "select_rows f m = map fst (filter snd (zip f m))"

text \<open>
  \<^verbatim>\<open>df[(df[station].isin(selected)) & (df[period].dt.date >= start) &
     (df[period].dt.date <= end)].copy()\<close>
\<close>

definition filter_df :: "frame \<Rightarrow> str list \<Rightarrow> date \<Rightarrow> date \<Rightarrow> frame" where
  "filter_df df selected_stations start_date end_date =
     select_rows df
       (mask_and
          (mask_and (isin (map station df) selected_stations)
                    (map (\<lambda>t. dt_date t \<ge> start_date) (map period df)))
          (map (\<lambda>t. dt_date t \<le> end_date) (map period df)))"

text \<open>The mask of these lines by itself.\<close>

definition filter_mask :: "frame \<Rightarrow> str list \<Rightarrow> date \<Rightarrow> date \<Rightarrow> bool list" where
  "filter_mask df selected_stations start_date end_date =
     mask_and
       (mask_and (isin (map station df) selected_stations)
                 (map (\<lambda>t. dt_date t \<ge> start_date) (map period df)))
       (map (\<lambda>t. dt_date t \<le> end_date) (map period df))"

text \<open>The row inclusion rule of the specification, as a predicate on one row.\<close>

definition keeps :: "str list \<Rightarrow> date \<Rightarrow> date \<Rightarrow> row \<Rightarrow> bool" where
  "keeps selected_stations start_date end_date r \<longleftrightarrow>
     station r \<in> set selected_stations \<and>
     start_date \<le> dt_date (period r) \<and> dt_date (period r) \<le> end_date"

section \<open>Frames as objects\<close>

text \<open>
  A \<^verbatim>\<open>DataFrame\<close> is an object: variables hold references to it, and
  \<^verbatim>\<open>frame[name] = series\<close> writes a column into the object itself. An object of the
  loaded table's shape has the rows of the six file columns and, in the order in which
  they were added, the columns that the script has assigned into it.
\<close>

datatype column = IntCol "int list" | StrCol "str list"

record obj =
  body :: frame
  extra :: "(str \<times> column) list"

datatype py_error = KeyError str | TypeError str

text \<open>
  \<^verbatim>\<open>frame[name] = series\<close>: the column replaces the column of that name, or is added
  after the last column. The series the script assigns are computed from the columns of
  the same frame and have its length.
\<close>

definition assign :: "str \<Rightarrow> column \<Rightarrow> obj \<Rightarrow> obj" where
  "assign name c ob = ob\<lparr>extra := AList.update name c (extra ob)\<rparr>"

text \<open>
  Reading an added column by its name. A name the frame lacks raises \<^verbatim>\<open>KeyError\<close>;
  the script reads no column at another type than the one it wrote.
\<close>

definition int_column :: "str \<Rightarrow> obj \<Rightarrow> py_error + int list" where
  "int_column name ob =
     (case map_of (extra ob) name of
        None \<Rightarrow> Inl (KeyError name)
      | Some (IntCol vs) \<Rightarrow> Inr vs
      | Some (StrCol _) \<Rightarrow> Inl (TypeError name))"

definition str_column :: "str \<Rightarrow> obj \<Rightarrow> py_error + str list" where
  "str_column name ob =
     (case map_of (extra ob) name of
        None \<Rightarrow> Inl (KeyError name)
      | Some (StrCol ss) \<Rightarrow> Inr ss
      | Some (IntCol _) \<Rightarrow> Inl (TypeError name))"

text \<open>\<^verbatim>\<open>frame[mask]\<close> on an object: a new object, every column cut down by the mask.\<close>

definition mask_column :: "bool list \<Rightarrow> column \<Rightarrow> column" where
  "mask_column m c =
     (case c of IntCol vs \<Rightarrow> IntCol (select_rows vs m) | StrCol ss \<Rightarrow> StrCol (select_rows ss m))"

definition mask_obj :: "bool list \<Rightarrow> obj \<Rightarrow> obj" where
  "mask_obj m ob =
     \<lparr>body = select_rows (body ob) m,
      extra = map (\<lambda>(name, c). (name, mask_column m c)) (extra ob)\<rparr>"

text \<open>
  The store: the objects by their addresses, and the next free address. A new object
  takes the next free address; an address in use is below it.
\<close>

record store =
  objs :: "nat \<Rightarrow> obj"
  fresh :: nat

definition alloc :: "obj \<Rightarrow> store \<Rightarrow> nat \<times> store" where
  "alloc ob st = (fresh st, \<lparr>objs = (objs st)(fresh st := ob), fresh = Suc (fresh st)\<rparr>)"

text \<open>\<^verbatim>\<open>frame.copy()\<close>: a new object with the columns of the old one.\<close>

definition copy_obj :: "nat \<Rightarrow> store \<Rightarrow> nat \<times> store" where
  "copy_obj a st = alloc (objs st a) st"

text \<open>\<^verbatim>\<open>frame[mask]\<close>: a new object, too.\<close>

definition getitem_mask :: "bool list \<Rightarrow> nat \<Rightarrow> store \<Rightarrow> nat \<times> store" where
  "getitem_mask m a st = alloc (mask_obj m (objs st a)) st"

text \<open>A write into the object at an address.\<close>

definition modify :: "nat \<Rightarrow> (obj \<Rightarrow> obj) \<Rightarrow> store \<Rightarrow> store" where
  "modify a g st = st\<lparr>objs := (objs st)(a := g (objs st a))\<rparr>"

text \<open>
  Lines 54 to 56 on the store: the masked frame is one new object and its copy another;
  \<^verbatim>\<open>filtered_df\<close> refers to the copy.
\<close>

definition filter_stage :: "nat \<Rightarrow> str list \<Rightarrow> date \<Rightarrow> date \<Rightarrow> store \<Rightarrow> nat \<times> store" where
  "filter_stage df_ref selected_stations start_date end_date st =
     (case getitem_mask
             (filter_mask (body (objs st df_ref)) selected_stations start_date end_date)
             df_ref st
      of (masked, st1) \<Rightarrow> copy_obj masked st1)"

section \<open>Grouping and aggregation\<close>

text \<open>
  \<^verbatim>\<open>frame.groupby(key)\<close> with the default \<^verbatim>\<open>sort=True\<close>: the group keys are the distinct
  key values in ascending order, and each group holds its rows in frame order.
\<close>

definition group_keys :: "('r \<Rightarrow> 'k::linorder) \<Rightarrow> 'r list \<Rightarrow> 'k list" where
  "group_keys key f = sort (remdups (map key f))"

definition group_rows :: "('r \<Rightarrow> 'k) \<Rightarrow> 'r list \<Rightarrow> 'k \<Rightarrow> 'r list" where
  "group_rows key f k = filter (\<lambda>r. key r = k) f"

text \<open>
  \<^verbatim>\<open>.groupby(key)[col].sum()\<close>: one entry per group key, ascending. The sum of a 64-bit
  column is accumulated in 64 bits.
\<close>

definition groupby_sum :: "('r \<Rightarrow> 'k::linorder) \<Rightarrow> ('r \<Rightarrow> int) \<Rightarrow> 'r list \<Rightarrow> ('k \<times> int) list" where
  "groupby_sum key col f =
     map (\<lambda>k. (k, wrap64 (sum_list (map col (group_rows key f k))))) (group_keys key f)"

text \<open>\<^verbatim>\<open>.groupby(key)[col].mean()\<close>: the library's mean of the values of each group.\<close>

definition groupby_mean ::
  "'f numlib \<Rightarrow> ('r \<Rightarrow> 'k::linorder) \<Rightarrow> ('r \<Rightarrow> int) \<Rightarrow> 'r list \<Rightarrow> ('k \<times> 'f) list" where
  "groupby_mean lib key col f =
     map (\<lambda>k. (k, mean_f64 lib (map col (group_rows key f k)))) (group_keys key f)"

text \<open>\<^verbatim>\<open>series1 + series2\<close> and \<^verbatim>\<open>series1 - series2\<close> of 64-bit columns, element by element.\<close>

definition series_add :: "int list \<Rightarrow> int list \<Rightarrow> int list" where
  "series_add a b = map2 (\<lambda>x y. wrap64 (x + y)) a b"

definition series_sub :: "int list \<Rightarrow> int list \<Rightarrow> int list" where
  "series_sub a b = map2 (\<lambda>x y. wrap64 (x - y)) a b"

section \<open>Section 1: time series (lines 62-81)\<close>

text \<open>A \<^verbatim>\<open>go.Scatter\<close> trace in mode \<^verbatim>\<open>lines\<close>: the points are joined in list order.\<close>

record trace =
  trace_x :: "timestamp list"
  trace_y :: "int list"
  trace_name :: str
  trace_dash :: str

text \<open>The literals \<^verbatim>\<open>'solid'\<close> and \<^verbatim>\<open>'dash'\<close>, and the four name suffixes of lines 69-76.\<close>

definition solid :: str where "solid = [115, 111, 108, 105, 100]"
definition dash :: str where "dash = [100, 97, 115, 104]"
definition sfx_down_boarding :: str where "sfx_down_boarding = [32, 54616, 54665, 32, 49849, 52264]"
definition sfx_down_alighting :: str where "sfx_down_alighting = [32, 54616, 54665, 32, 54616, 52264]"
definition sfx_up_boarding :: str where "sfx_up_boarding = [32, 49345, 54665, 32, 49849, 52264]"
definition sfx_up_alighting :: str where "sfx_up_alighting = [32, 49345, 54665, 32, 54616, 52264]"

text \<open>
  The body of the loop of line 65 for one station:
  \<^verbatim>\<open>station_data = filtered_df[filtered_df[station] == st]\<close>, then four traces over it.
\<close>

definition station_data :: "frame \<Rightarrow> str \<Rightarrow> frame" where
  "station_data filtered st = select_rows filtered (map (\<lambda>s. s = st) (map station filtered))"

definition four_traces :: "str \<Rightarrow> frame \<Rightarrow> trace list" where
  "four_traces st sd =
     [\<lparr>trace_x = map period sd, trace_y = map boarding_down sd,
       trace_name = st @ sfx_down_boarding, trace_dash = solid\<rparr>,
      \<lparr>trace_x = map period sd, trace_y = map alighting_down sd,
       trace_name = st @ sfx_down_alighting, trace_dash = solid\<rparr>,
      \<lparr>trace_x = map period sd, trace_y = map boarding_up sd,
       trace_name = st @ sfx_up_boarding, trace_dash = dash\<rparr>,
      \<lparr>trace_x = map period sd, trace_y = map alighting_up sd,
       trace_name = st @ sfx_up_alighting, trace_dash = dash\<rparr>]"

definition station_traces :: "frame \<Rightarrow> str \<Rightarrow> trace list" where
  "station_traces filtered st = four_traces st (station_data filtered st)"

text \<open>\<^verbatim>\<open>for station in selected_stations: ... fig_time.add_trace(...)\<close>\<close>

definition fig_time :: "str list \<Rightarrow> frame \<Rightarrow> trace list" where
  "fig_time selected_stations filtered = concat (map (station_traces filtered) selected_stations)"

text \<open>
  The same loop on the store: each \<^verbatim>\<open>station_data\<close> is a new object, cut out of the
  object that \<^verbatim>\<open>filtered_df\<close> refers to.
\<close>

fun time_loop :: "nat \<Rightarrow> str list \<Rightarrow> store \<Rightarrow> trace list \<times> store" where
  "time_loop a [] st = ([], st)"
| "time_loop a (s # ss) st =
     (let r1 = getitem_mask (map (\<lambda>x. x = s) (map station (body (objs st a)))) a st;
          r2 = time_loop a ss (snd r1)
      in (four_traces s (body (objs (snd r1) (fst r1))) @ fst r2, snd r2))"

text \<open>The chronological order of timestamps, through the key (year, month, day, time).\<close>

definition ts_key :: "timestamp \<Rightarrow> nat \<times> nat \<times> nat \<times> nat" where
  "ts_key t = (year t, month t, day t, time_of_day t)"

section \<open>Sections 2 and 7: averages and totals of the four count columns\<close>

type_synonym 'a stats = "(str \<times> 'a \<times> 'a \<times> 'a \<times> 'a) list"

text \<open>\<^verbatim>\<open>filtered_df.groupby(station)[[four columns]].mean().reset_index()\<close>, and \<^verbatim>\<open>.sum()\<close>.\<close>

definition four_means :: "'f numlib \<Rightarrow> frame \<Rightarrow> 'f stats" where
  "four_means lib f =
     map (\<lambda>k. let g = group_rows station f k in
            (k, mean_f64 lib (map boarding_down g), mean_f64 lib (map alighting_down g),
                mean_f64 lib (map boarding_up g), mean_f64 lib (map alighting_up g)))
         (group_keys station f)"

definition four_sums :: "frame \<Rightarrow> int stats" where
  "four_sums f =
     map (\<lambda>k. let g = group_rows station f k in
            (k, wrap64 (sum_list (map boarding_down g)), wrap64 (sum_list (map alighting_down g)),
                wrap64 (sum_list (map boarding_up g)), wrap64 (sum_list (map alighting_up g))))
         (group_keys station f)"

text \<open>
  \<^verbatim>\<open>.round(0).astype(int)\<close> leaves a column of integers as it is, and turns a column of
  means into integers through the library.
\<close>

definition total_passengers :: "frame \<Rightarrow> int stats" where
  "total_passengers f = four_sums f"

definition monthly_avg :: "'f numlib \<Rightarrow> frame \<Rightarrow> int stats" where
  "monthly_avg lib f =
     map (\<lambda>(k, a, b, c, d).
            (k, round_int lib a, round_int lib b, round_int lib c, round_int lib d))
         (four_means lib f)"

section \<open>Section 3: total boardings per station (lines 91-96)\<close>

record total_row =
  total_station :: str
  sum_boarding_down :: int
  sum_boarding_up :: int
  total_boarding :: int

text \<open>
  \<^verbatim>\<open>total_data = filtered_df.groupby(station)[[boarding_down, boarding_up]].sum().reset_index()\<close>
  and \<^verbatim>\<open>total_data[total] = total_data[boarding_down] + total_data[boarding_up]\<close>.
  The frame that \<^verbatim>\<open>reset_index\<close> returns is a new object of another shape, which no
  other variable refers to; the model gives its three columns at once.
  The frame goes to \<^verbatim>\<open>px.pie(total_data, values=total, names=station)\<close> as it is.
\<close>

definition total_data :: "frame \<Rightarrow> total_row list" where
  "total_data f =
     map (\<lambda>k. let d = wrap64 (sum_list (map boarding_down (group_rows station f k)));
                  u = wrap64 (sum_list (map boarding_up (group_rows station f k))) in
            \<lparr>total_station = k, sum_boarding_down = d, sum_boarding_up = u,
             total_boarding = wrap64 (d + u)\<rparr>)
         (group_keys station f)"

text \<open>The exact sums of the boardings of one station, and whether they fit in 64 bits.\<close>

definition down_sum :: "frame \<Rightarrow> str \<Rightarrow> int" where
  "down_sum f s = sum_list (map boarding_down (group_rows station f s))"

definition up_sum :: "frame \<Rightarrow> str \<Rightarrow> int" where
  "up_sum f s = sum_list (map boarding_up (group_rows station f s))"

definition totals_fit :: "frame \<Rightarrow> bool" where
  "totals_fit f \<longleftrightarrow>
     (\<forall>s \<in> set (map station f).
        int64 (down_sum f s) \<and> int64 (up_sum f s) \<and> int64 (down_sum f s + up_sum f s))"

section \<open>Section 4: the month by station heatmap (lines 98-105)\<close>

text \<open>
  \<^verbatim>\<open>.dt.strftime('%Y-%m')\<close>: the year in four decimal digits, a hyphen, the month in two.
  A pandas timestamp lies between the years 1677 and 2262, so four digits print the year.
\<close>

definition strftime_Y_m :: "timestamp \<Rightarrow> str" where
  "strftime_Y_m t =
     [48 + year t div 1000 mod 10, 48 + year t div 100 mod 10,
      48 + year t div 10 mod 10, 48 + year t mod 10,
      45,
      48 + month t div 10 mod 10, 48 + month t mod 10]"

definition valid_timestamp :: "timestamp \<Rightarrow> bool" where
  "valid_timestamp t \<longleftrightarrow> 1677 \<le> year t \<and> year t \<le> 2262 \<and> 1 \<le> month t \<and> month t \<le> 12"

text \<open>The calendar month of a timestamp, and how \<^verbatim>\<open>'%Y-%m'\<close> prints a calendar month.\<close>

definition year_month :: "timestamp \<Rightarrow> nat \<times> nat" where
  "year_month t = (year t, month t)"

definition format_Y_m :: "nat \<times> nat \<Rightarrow> str" where
  "format_Y_m p = strftime_Y_m \<lparr>year = fst p, month = snd p, day = 1, time_of_day = 0\<rparr>"

text \<open>
  The rows of \<^verbatim>\<open>heatmap_data\<close> after lines 99-101, a copy of the filtered frame with two
  more columns: the month string and the total boardings of the row, added in 64 bits.
\<close>

definition heat_rows :: "frame \<Rightarrow> ((str \<times> str) \<times> int) list" where
  "heat_rows f =
     map (\<lambda>r. ((strftime_Y_m (period r), station r), wrap64 (boarding_down r + boarding_up r))) f"

text \<open>\<^verbatim>\<open>.groupby([month, station])[total].mean()\<close>: keyed by the pairs, ascending.\<close>

definition heat_groups :: "'f numlib \<Rightarrow> frame \<Rightarrow> ((str \<times> str) \<times> 'f) list" where
  "heat_groups lib f = groupby_mean lib fst snd (heat_rows f)"

text \<open>
  \<^verbatim>\<open>.unstack()\<close>: the first key level becomes the row labels, the second the column
  labels, each the distinct values of its level in ascending order; a pair without a
  group gets the missing value (NaN), here \<open>None\<close>.
\<close>

record 'f heat =
  heat_index :: "str list"
  heat_columns :: "str list"
  heat_cells :: "'f option list list"

definition unstack :: "((str \<times> str) \<times> 'f) list \<Rightarrow> 'f heat" where
  "unstack g =
     (let idx = sort (remdups (map (\<lambda>p. fst (fst p)) g));
          cols = sort (remdups (map (\<lambda>p. snd (fst p)) g)) in
      \<lparr>heat_index = idx, heat_columns = cols,
       heat_cells = map (\<lambda>m. map (\<lambda>c. map_of g (m, c)) cols) idx\<rparr>)"

definition heatmap_data :: "'f numlib \<Rightarrow> frame \<Rightarrow> 'f heat" where
  "heatmap_data lib f = unstack (heat_groups lib f)"

text \<open>
  The same lines on an object. Lines 100 and 101 assign the two columns, named
  \<^verbatim>\<open>'month'\<close> and \<^verbatim>\<open>'total boardings'\<close> in Korean, into the object that
  \<^verbatim>\<open>heatmap_data\<close> refers to; line 102 reads them back from it.
\<close>

definition col_month :: str where
  "col_month = [50900]"

definition col_total :: str where
  "col_total = [52509, 95, 49849, 52264, 51064, 50896, 49688]"

definition add_heat_columns :: "obj \<Rightarrow> obj" where
  "add_heat_columns ob =
     (let o1 = assign col_month (StrCol (map strftime_Y_m (map period (body ob)))) ob in
      assign col_total
        (IntCol (series_add (map boarding_down (body o1)) (map boarding_up (body o1)))) o1)"

definition pivot :: "'f numlib \<Rightarrow> obj \<Rightarrow> py_error + 'f heat" where
  "pivot lib ob =
     (case str_column col_month ob of
        Inl e \<Rightarrow> Inl e
      | Inr months \<Rightarrow>
          (case int_column col_total ob of
             Inl e \<Rightarrow> Inl e
           | Inr totals \<Rightarrow>
               Inr (unstack (groupby_mean lib fst snd
                      (zip (zip months (map station (body ob))) totals)))))"

section \<open>Section 8: boarding minus alighting (lines 129-136)\<close>

text \<open>The names of the two derived columns.\<close>

definition col_down_diff :: str where
  "col_down_diff = [54616, 54665, 95, 49849, 54616, 52264, 52264, 51060]"

definition col_up_diff :: str where
  "col_up_diff = [49345, 54665, 95, 49849, 54616, 52264, 52264, 51060]"

text \<open>Lines 130 and 131, in this order, on the object they write into.\<close>

definition add_diff_columns :: "obj \<Rightarrow> obj" where
  "add_diff_columns ob =
     (let o1 = assign col_down_diff
                 (IntCol (series_sub (map boarding_down (body ob)) (map alighting_down (body ob))))
                 ob in
      assign col_up_diff
        (IntCol (series_sub (map boarding_up (body o1)) (map alighting_up (body o1)))) o1)"

record long_row =
  long_station :: str
  direction :: str
  diff_value :: int

text \<open>
  \<^verbatim>\<open>frame.melt(id_vars=[station], value_vars=[down_diff, up_diff], ...)\<close>: a new frame
  with the rows of the first value column, then the rows of the second, each in frame
  order, the column name in the variable field. A value column the frame lacks raises
  \<^verbatim>\<open>KeyError\<close>.
\<close>

definition melt :: "obj \<Rightarrow> py_error + long_row list" where
  "melt ob =
     (case int_column col_down_diff ob of
        Inl e \<Rightarrow> Inl e
      | Inr ds \<Rightarrow>
          (case int_column col_up_diff ob of
             Inl e \<Rightarrow> Inl e
           | Inr us \<Rightarrow>
               Inr (map2 (\<lambda>s v. \<lparr>long_station = s, direction = col_down_diff, diff_value = v\<rparr>)
                      (map station (body ob)) ds
                    @ map2 (\<lambda>s v. \<lparr>long_station = s, direction = col_up_diff, diff_value = v\<rparr>)
                      (map station (body ob)) us)))"

section \<open>Section 9: the five stations with the most down-direction boardings (lines 138-143)\<close>

text \<open>
  \<^verbatim>\<open>series.nlargest(n)\<close> with the default \<^verbatim>\<open>keep='first'\<close>: the first \<open>n\<close> entries in
  descending order of value, entries of equal value in their order in the series.
\<close>

definition nlargest :: "nat \<Rightarrow> ('k \<times> int) list \<Rightarrow> ('k \<times> int) list" where
  "nlargest n series = take n (sort_key (\<lambda>p. - snd p) series)"

text \<open>\<^verbatim>\<open>filtered_df.groupby(station)[boarding_down].sum().nlargest(5).index\<close>\<close>

definition top_5_stations :: "frame \<Rightarrow> str list" where
  "top_5_stations f = map fst (nlargest 5 (groupby_sum station boarding_down f))"

text \<open>\<^verbatim>\<open>filtered_df[filtered_df[station].isin(top_5_stations)]\<close>\<close>

definition top_5_data :: "frame \<Rightarrow> frame" where
  "top_5_data f = select_rows f (isin (map station f) (top_5_stations f))"

text \<open>
  The down-direction boardings of one station, summed exactly over the frame, and the
  sum as the script has it, in 64 bits.
\<close>

definition down_total :: "frame \<Rightarrow> str \<Rightarrow> int" where
  "down_total f s = sum_list (map boarding_down (group_rows station f s))"

definition down_total64 :: "frame \<Rightarrow> str \<Rightarrow> int" where
  "down_total64 f s = wrap64 (down_total f s)"

text \<open>
  The ranking order: more down-direction boardings first, then the smaller name; by the
  exact sums, and by the 64-bit sums.
\<close>

definition outranks :: "frame \<Rightarrow> str \<Rightarrow> str \<Rightarrow> bool" where
  "outranks f s t \<longleftrightarrow>
     down_total f s > down_total f t \<or> (down_total f s = down_total f t \<and> s < t)"

definition outranks64 :: "frame \<Rightarrow> str \<Rightarrow> str \<Rightarrow> bool" where
  "outranks64 f s t \<longleftrightarrow>
     down_total64 f s > down_total64 f t \<or> (down_total64 f s = down_total64 f t \<and> s < t)"

text \<open>The order of a series by value descending, then key ascending.\<close>

definition ranks_before :: "('k::linorder) \<times> int \<Rightarrow> 'k \<times> int \<Rightarrow> bool" where
  "ranks_before p q \<longleftrightarrow> snd p > snd q \<or> (snd p = snd q \<and> fst p < fst q)"

section \<open>The page and the script\<close>

text \<open>
  What a chart call receives: the data and, by the constructor, the kind of chart.
  Titles, axis labels and colours are constants of the script and are left out.
\<close>

datatype 'f figure =
    GoFigure "trace list"
  | PxBar "'f stats"
  | PxPie "total_row list"
  | PxImshow "'f heat"
  | PxScatter obj
  | PxBox "long_row list"
  | PxLine obj

text \<open>
  The elements the script writes to the page, in order. \<open>Header n\<close> is the
  \<^verbatim>\<open>st.header\<close> of section \<open>n\<close> and \<open>Subheader n\<close> the \<open>n\<close>-th \<^verbatim>\<open>st.subheader\<close>.
  \<open>MissingStations\<close> is the \<^verbatim>\<open>st.warning\<close> of line 37, which prints the set of
  preferred stations that the data lacks. \<open>Exception\<close> is what an uncaught Python
  exception leaves on the page.
\<close>

datatype 'f element =
    Title str
  | Header nat
  | Subheader nat
  | Error str
  | Warning str
  | MissingStations "str list"
  | PlotlyChart "'f figure"
  | DataframeRows obj
  | DataframeStats "int stats"
  | Exception py_error

text \<open>The literals of lines 25, 33, 51 and 59.\<close>

definition title_text :: str where
  "title_text = [75, 84, 88, 32, 49849, 54616, 52264, 32, 51064, 50896, 32, 45936, 51060,
     53552, 32, 49884, 44033, 54868]"

definition preferred_stations :: "str list" where
  "preferred_stations =
     [[49436, 50872], [48512, 49328], [46041, 45824, 44396], [45824, 51204],
      [44305, 51452, 49569, 51221]]"

definition date_range_message :: str where
  "date_range_message = [49884, 51089, 32, 45216, 51676, 44032, 32, 51333, 47308, 32, 45216,
     51676, 48372, 45796, 32, 45734, 49845, 45768, 45796, 46, 32, 45796, 49884, 32, 49440,
     53469, 54644, 51452, 49464, 50836, 46]"

definition no_data_message :: str where
  "no_data_message = [49440, 53469, 54620, 32, 51312, 44148, 50640, 32, 54644, 45817, 54616,
     45716, 32, 45936, 51060, 53552, 44032, 32, 50630, 49845, 45768, 45796, 46, 32, 45796,
     47480, 32, 51312, 44148, 51012, 32, 49440, 53469, 54644, 51452, 49464, 50836, 46]"

text \<open>
  The state of the script from line 62 on: the store, the objects that the variables
  \<^verbatim>\<open>df\<close> and \<^verbatim>\<open>filtered_df\<close> refer to, and the page so far. The store holds the frames
  of the loaded table's shape. The results of \<^verbatim>\<open>groupby\<close> and \<^verbatim>\<open>melt\<close> are new
  frames of another shape, which one variable refers to and the next call reads; they
  are values of the section that binds them.
\<close>

record 'f env =
  mem :: store
  df :: nat
  filtered_df :: nat
  page :: "'f element list"

definition emit :: "'f element list \<Rightarrow> 'f env \<Rightarrow> 'f env" where
  "emit es e = e\<lparr>page := page e @ es\<rparr>"

text \<open>The rows of the frame that \<^verbatim>\<open>filtered_df\<close> refers to.\<close>

definition filtered_rows :: "'f env \<Rightarrow> frame" where
  "filtered_rows e = body (objs (mem e) (filtered_df e))"

definition time_view :: "str list \<Rightarrow> 'f env \<Rightarrow> 'f env" where
  "time_view selected_stations e =
     (let e1 = emit [Header 1] e;
          r = time_loop (filtered_df e1) selected_stations (mem e1)
      in emit [PlotlyChart (GoFigure (fst r))] (e1\<lparr>mem := snd r\<rparr>))"

definition bar_view :: "'f numlib \<Rightarrow> 'f env \<Rightarrow> 'f env" where
  "bar_view lib e = emit [Header 2, PlotlyChart (PxBar (four_means lib (filtered_rows e)))] e"

definition pie_view :: "'f env \<Rightarrow> 'f env" where
  "pie_view e = emit [Header 3, PlotlyChart (PxPie (total_data (filtered_rows e)))] e"

text \<open>
  Section 4 copies the filtered frame, assigns the two columns into the copy and groups
  the copy. An exception ends the script with the page as it is.
\<close>

definition heat_view :: "'f numlib \<Rightarrow> 'f env \<Rightarrow> py_error \<times> 'f env + 'f env" where
  "heat_view lib e =
     (let e1 = emit [Header 4] e;
          r = copy_obj (filtered_df e1) (mem e1);
          e2 = e1\<lparr>mem := modify (fst r) add_heat_columns (snd r)\<rparr>
      in case pivot lib (objs (mem e2) (fst r)) of
           Inl err \<Rightarrow> Inl (err, e2)
         | Inr h \<Rightarrow> Inr (emit [PlotlyChart (PxImshow h)] e2))"

definition scatter_view :: "'f env \<Rightarrow> 'f env" where
  "scatter_view e =
     emit [Header 5, PlotlyChart (PxScatter (objs (mem e) (filtered_df e)))] e"

definition table_view :: "'f env \<Rightarrow> 'f env" where
  "table_view e = emit [Header 6, DataframeRows (objs (mem e) (filtered_df e))] e"

definition stats_view :: "'f numlib \<Rightarrow> 'f env \<Rightarrow> 'f env" where
  "stats_view lib e =
     emit [Header 7,
           Subheader 1, DataframeStats (total_passengers (filtered_rows e)),
           Subheader 2, DataframeStats (monthly_avg lib (filtered_rows e))] e"

text \<open>
  Section 8 assigns the two columns into the object that \<^verbatim>\<open>filtered_df\<close> refers to,
  then melts it.
\<close>

definition diff_view :: "'f env \<Rightarrow> py_error \<times> 'f env + 'f env" where
  "diff_view e =
     (let e1 = emit [Header 8] e;
          e2 = e1\<lparr>mem := modify (filtered_df e1) add_diff_columns (mem e1)\<rparr>
      in case melt (objs (mem e2) (filtered_df e2)) of
           Inl err \<Rightarrow> Inl (err, e2)
         | Inr long \<Rightarrow> Inr (emit [PlotlyChart (PxBox long)] e2))"

text \<open>Section 9: \<^verbatim>\<open>top_5_data\<close> is a new object, cut out of the filtered frame.\<close>

definition top5_view :: "'f env \<Rightarrow> 'f env" where
  "top5_view e =
     (let e1 = emit [Header 9] e;
          r = getitem_mask
                (isin (map station (filtered_rows e1)) (top_5_stations (filtered_rows e1)))
                (filtered_df e1) (mem e1)
      in emit [PlotlyChart (PxLine (objs (snd r) (fst r)))] (e1\<lparr>mem := snd r\<rparr>))"

text \<open>Lines 62 to 143.\<close>

definition render :: "'f numlib \<Rightarrow> str list \<Rightarrow> 'f env \<Rightarrow> py_error \<times> 'f env + 'f env" where
  "render lib selected_stations e =
     (case heat_view lib (pie_view (bar_view lib (time_view selected_stations e))) of
        Inl x \<Rightarrow> Inl x
      | Inr e4 \<Rightarrow>
          (case diff_view (stats_view lib (table_view (scatter_view e4))) of
             Inl x \<Rightarrow> Inl x
           | Inr e8 \<Rightarrow> Inr (top5_view e8)))"

text \<open>How a run ends: \<^verbatim>\<open>st.stop()\<close>, the end of the script, or an exception.\<close>

datatype exit = Stopped | Finished | Raised

text \<open>
  \<^verbatim>\<open>main\<close>, from the loaded table and the three sidebar inputs to the way the run ends
  and the page it leaves. \<open>startup_page\<close> is the page after lines 25 to 37: the title
  and, when fewer than five preferred stations are in the data, the warning that names
  the others. The sidebar widgets are the inputs; they put nothing on the page.
  \<^verbatim>\<open>load_data\<close> is not modelled: its result is the argument \<open>loaded\<close>, and the
  messages it writes when it cannot read the file, which come with an empty table, are
  not on the page of the model. \<open>loaded_store\<close> is the store when \<^verbatim>\<open>load_data\<close> has
  returned: the loaded table is its one object, at address 0.
\<close>

definition startup_page :: "frame \<Rightarrow> 'f element list" where
  "startup_page loaded =
     (let page0 = [Title title_text];
          all_stations = sort (remdups (map station loaded));
          default_stations = filter (\<lambda>s. s \<in> set all_stations) preferred_stations
      in page0 @
         (if length default_stations < 5
          then [MissingStations (filter (\<lambda>s. s \<notin> set default_stations) preferred_stations)]
          else []))"

definition loaded_store :: "frame \<Rightarrow> store" where
  "loaded_store loaded =
     \<lparr>objs = (\<lambda>a. \<lparr>body = [], extra = []\<rparr>)(0 := \<lparr>body = loaded, extra = []\<rparr>), fresh = 1\<rparr>"

definition main ::
  "'f numlib \<Rightarrow> frame \<Rightarrow> str list \<Rightarrow> date \<Rightarrow> date \<Rightarrow> exit \<times> 'f element list" where
  "main lib loaded selected_stations start_date end_date =
     (let st0 = loaded_store loaded in
      if body (objs st0 0) = [] then (Stopped, [Title title_text])
      else
        let page1 = startup_page (body (objs st0 0)) in
        if start_date > end_date then (Stopped, page1 @ [Error date_range_message])
        else
          let r = filter_stage 0 selected_stations start_date end_date st0 in
          if body (objs (snd r) (fst r)) = [] then (Stopped, page1 @ [Warning no_data_message])
          else
            (case render lib selected_stations
                    \<lparr>mem = snd r, df = 0, filtered_df = fst r, page = page1\<rparr> of
               Inl (err, e) \<Rightarrow> (Raised, page e @ [Exception err])
             | Inr e \<Rightarrow> (Finished, page e)))"

text \<open>An element that shows data: a chart or a table.\<close>

fun shows_data :: "'f element \<Rightarrow> bool" where
  "shows_data (PlotlyChart _) = True"
| "shows_data (DataframeRows _) = True"
| "shows_data (DataframeStats _) = True"
| "shows_data _ = False"

text \<open>
  The variables of a state refer to objects in use, and to two different ones.
\<close>

definition bound :: "'f env \<Rightarrow> bool" where
  "bound e \<longleftrightarrow>
     df e < fresh (mem e) \<and> filtered_df e < fresh (mem e) \<and> df e \<noteq> filtered_df e"

text \<open>
  From one state to a later one every object in use is as it was, and the two variables
  refer to the objects they referred to.
\<close>

definition keeps_objects :: "'f env \<Rightarrow> 'f env \<Rightarrow> bool" where
  "keeps_objects e e' \<longleftrightarrow>
     df e' = df e \<and> filtered_df e' = filtered_df e \<and>
     fresh (mem e) \<le> fresh (mem e') \<and>
     (\<forall>b < fresh (mem e). objs (mem e') b = objs (mem e) b)"

text \<open>The long form of section 8 over the rows of a frame, with the 64-bit differences.\<close>

definition long_form :: "frame \<Rightarrow> long_row list" where
  "long_form f =
     map (\<lambda>r. \<lparr>long_station = station r, direction = col_down_diff,
                 diff_value = wrap64 (boarding_down r - alighting_down r)\<rparr>) f
     @ map (\<lambda>r. \<lparr>long_station = station r, direction = col_up_diff,
                   diff_value = wrap64 (boarding_up r - alighting_up r)\<rparr>) f"

section \<open>Concrete tables used in the examples\<close>

definition ts :: "nat \<Rightarrow> nat \<Rightarrow> timestamp" where
  "ts y m = \<lparr>year = y, month = m, day = 1, time_of_day = 0\<rparr>"

definition mk_row :: "timestamp \<Rightarrow> str \<Rightarrow> int \<Rightarrow> int \<Rightarrow> int \<Rightarrow> int \<Rightarrow> row" where
  "mk_row t s bd ad bu au =
     \<lparr>period = t, station = s, boarding_down = bd, alighting_down = ad,
      boarding_up = bu, alighting_up = au\<rparr>"

text \<open>The station names "A" to "F".\<close>

definition stA :: str where "stA = [65]"
definition stB :: str where "stB = [66]"
definition stC :: str where "stC = [67]"
definition stD :: str where "stD = [68]"
definition stE :: str where "stE = [69]"
definition stF :: str where "stF = [70]"

definition ex_df :: frame where
  "ex_df =
     [mk_row (ts 2023 2) stA 10 5 7 3,
      mk_row (ts 2023 1) stB 4 4 6 1,
      mk_row (ts 2023 1) stA 20 5 1 2,
      mk_row (ts 2023 3) stC 9 9 9 9]"

definition ex_many :: frame where
  "ex_many =
     [mk_row (ts 2023 1) stF 1 0 0 0,
      mk_row (ts 2023 1) stE 5 0 0 0,
      mk_row (ts 2023 1) stD 7 0 0 0,
      mk_row (ts 2023 1) stC 5 0 0 0,
      mk_row (ts 2023 1) stB 4 0 0 0,
      mk_row (ts 2023 1) stA 5 0 0 0,
      mk_row (ts 2023 2) stB 5 0 0 0]"

definition ex_ab :: frame where
  "ex_ab =
     [mk_row (ts 2023 1) stA 60 0 40 0,
      mk_row (ts 2023 1) stB 100 0 200 0]"

definition ex_sorted :: frame where
  "ex_sorted =
     [mk_row (ts 2023 1) stA 20 5 1 2,
      mk_row (ts 2023 1) stB 4 4 6 1,
      mk_row (ts 2023 2) stA 10 5 7 3]"

definition ex_one :: frame where
  "ex_one = [mk_row (ts 2023 1) stA 10 4 7 9]"

text \<open>
  Two rows of station "A" in one month, and a row of station "B" in the next month.
\<close>

definition ex_heat :: frame where
  "ex_heat =
     [mk_row (ts 2023 1) stA 10 0 1 0,
      mk_row (ts 2023 1) stA 20 0 2 0,
      mk_row (ts 2023 2) stB 4 0 6 0]"

text \<open>
  Tables with counts at the end of the 64-bit range: station "A" with two rows of
  \<^verbatim>\<open>2^62\<close> down-direction boardings and station "B" with one boarding; and a row
  with \<^verbatim>\<open>2^63 - 1\<close> boardings and -1 alightings.
\<close>

definition ex_big :: frame where
  "ex_big =
     [mk_row (ts 2023 1) stA 4611686018427387904 0 0 0,
      mk_row (ts 2023 2) stA 4611686018427387904 0 0 0,
      mk_row (ts 2023 1) stB 1 0 0 0]"

definition ex_wrap :: frame where
  "ex_wrap = [mk_row (ts 2023 1) stA 9223372036854775807 (- 1) 0 0]"

text \<open>
  A state with the table \<open>ex_df\<close> as the loaded frame and \<open>ex_one\<close> as the filtered
  frame, and an instance of the library parameters for the examples: the exact mean as
  a rational number, and rounding to the nearest integer, halves to the even one.
\<close>

definition ex_store :: store where
  "ex_store =
     \<lparr>objs = (\<lambda>a. \<lparr>body = [], extra = []\<rparr>)
               (0 := \<lparr>body = ex_df, extra = []\<rparr>, 1 := \<lparr>body = ex_one, extra = []\<rparr>),
      fresh = 2\<rparr>"

definition round_half_even :: "rat \<Rightarrow> int" where
  "round_half_even q =
     (let fl = \<lfloor>q\<rfloor>; fr = q - of_int fl in
      if fr < 1 / 2 then fl
      else if fr > 1 / 2 then fl + 1
      else if even fl then fl else fl + 1)"

definition exact_lib :: "rat numlib" where
  "exact_lib =
     \<lparr>mean_f64 = (\<lambda>vs. of_int (sum_list vs) / of_nat (length vs)),
      round_int = round_half_even\<rparr>"

definition ex_env :: "rat env" where
  "ex_env = \<lparr>mem = ex_store, df = 0, filtered_df = 1, page = []\<rparr>"

section \<open>The filter keeps exactly the qualifying rows\<close>

lemma select_rows_map:
  "select_rows xs (map P xs) = filter P xs"
  by (induction xs) (simp_all add: select_rows_def)

lemma filter_df_eq_filter:
  "filter_df tbl sel s e = filter (keeps sel s e) tbl"
proof -
  have "mask_and (mask_and (isin (map station tbl) sel)
                   (map (\<lambda>t. dt_date t \<ge> s) (map period tbl)))
          (map (\<lambda>t. dt_date t \<le> e) (map period tbl))
        = map (keeps sel s e) tbl"
    by (induction tbl) (simp_all add: mask_and_def isin_def keeps_def)
  then show ?thesis
    by (simp add: filter_df_def select_rows_map)
qed

text \<open>
  Claim C1. For every table and every criteria with \<open>date_from \<le> date_to\<close>, the filter
  returns exactly the subsequence of the input rows, in their original order, whose
  station is selected and whose period (its calendar date) lies in the inclusive
  interval: every output row is an input row that satisfies both predicates, and no
  qualifying row is dropped.
\<close>

theorem filter_df_exact:
  assumes "start_date \<le> end_date"
  shows "filter_df tbl sel start_date end_date = filter (keeps sel start_date end_date) tbl
    \<and> subseq (filter_df tbl sel start_date end_date) tbl
    \<and> (\<forall>r \<in> set (filter_df tbl sel start_date end_date).
          r \<in> set tbl \<and> station r \<in> set sel
          \<and> start_date \<le> dt_date (period r) \<and> dt_date (period r) \<le> end_date)
    \<and> (\<forall>r \<in> set tbl.
          station r \<in> set sel \<and> start_date \<le> dt_date (period r)
          \<and> dt_date (period r) \<le> end_date
          \<longrightarrow> r \<in> set (filter_df tbl sel start_date end_date))"
  by (simp add: filter_df_eq_filter keeps_def)

theorem filter_df_exact_witness:
  "((2023, 1, 1) :: date) \<le> (2023, 2, 28)
   \<and> filter_df ex_df [stA, stC] (2023, 1, 1) (2023, 2, 28)
       = [mk_row (ts 2023 2) stA 10 5 7 3, mk_row (ts 2023 1) stA 20 5 1 2]
   \<and> subseq (filter_df ex_df [stA, stC] (2023, 1, 1) (2023, 2, 28)) ex_df"
proof -
  have h: "((2023, 1, 1) :: date) \<le> (2023, 2, 28)" by simp
  note t = filter_df_exact [OF h, of ex_df "[stA, stC]"]
  have c: "filter (keeps [stA, stC] (2023, 1, 1) (2023, 2, 28)) ex_df
        = [mk_row (ts 2023 2) stA 10 5 7 3, mk_row (ts 2023 1) stA 20 5 1 2]"
    by (simp add: keeps_def ex_df_def mk_row_def ts_def dt_date_def stA_def stB_def stC_def)
  from t have e: "filter_df ex_df [stA, stC] (2023, 1, 1) (2023, 2, 28)
        = filter (keeps [stA, stC] (2023, 1, 1) (2023, 2, 28)) ex_df"
    by (rule conjunct1)
  from t have s: "subseq (filter_df ex_df [stA, stC] (2023, 1, 1) (2023, 2, 28)) ex_df"
    by (rule conjunct2 [THEN conjunct1])
  from h e [unfolded c] s show ?thesis
    by (intro conjI)
qed

section \<open>The store\<close>

lemma alloc_simps:
  "fst (alloc ob st) = fresh st"
  "objs (snd (alloc ob st)) = (objs st)(fresh st := ob)"
  "fresh (snd (alloc ob st)) = Suc (fresh st)"
  by (simp_all add: alloc_def)

lemma modify_simps:
  "objs (modify a g st) = (objs st)(a := g (objs st a))"
  "fresh (modify a g st) = fresh st"
  by (simp_all add: modify_def)

lemma body_mask_obj:
  "body (mask_obj m ob) = select_rows (body ob) m"
  by (simp add: mask_obj_def)

lemma body_assign:
  "body (assign name c ob) = body ob"
  by (simp add: assign_def)

lemma filter_df_mask:
  "filter_df tbl sel s e = select_rows tbl (filter_mask tbl sel s e)"
  by (simp add: filter_df_def filter_mask_def)

lemma filter_stage_simps:
  "fst (filter_stage d sel s e st) = Suc (fresh st)"
  "fresh (snd (filter_stage d sel s e st)) = Suc (Suc (fresh st))"
  "objs (snd (filter_stage d sel s e st)) =
     (objs st)(fresh st := mask_obj (filter_mask (body (objs st d)) sel s e) (objs st d),
               Suc (fresh st) := mask_obj (filter_mask (body (objs st d)) sel s e) (objs st d))"
  by (simp_all add: filter_stage_def getitem_mask_def copy_obj_def alloc_def split_def)

lemma filter_stage_body:
  "body (objs (snd (filter_stage d sel s e st)) (fst (filter_stage d sel s e st)))
     = filter_df (body (objs st d)) sel s e"
  by (simp add: filter_stage_simps body_mask_obj filter_df_mask)

lemma loaded_store_simps:
  "objs (loaded_store tbl) 0 = \<lparr>body = tbl, extra = []\<rparr>"
  "fresh (loaded_store tbl) = 1"
  by (simp_all add: loaded_store_def)

lemma main_filtered_rows:
  "body (objs (snd (filter_stage 0 sel s e (loaded_store tbl)))
               (fst (filter_stage 0 sel s e (loaded_store tbl))))
     = filter_df tbl sel s e"
  by (simp only: filter_stage_body loaded_store_simps obj.simps)

section \<open>The two ways the filter stops the script\<close>

lemma startup_page_no_data:
  "\<forall>e \<in> set (startup_page tbl). \<not> shows_data e"
  by (simp add: startup_page_def Let_def)

lemma messages_differ:
  "no_data_message \<noteq> date_range_message"
  by (simp add: no_data_message_def date_range_message_def)

text \<open>
  Claim C2. For every station selection and every date pair with \<open>date_from > date_to\<close>,
  the run stops with the message of the invalid date range as its last element, whatever
  stations are selected; the page holds no chart and no table, and not the message of the
  empty result. (The script reaches the check when the loaded table has rows.)
\<close>

theorem invalid_date_range_stops:
  assumes "tbl \<noteq> []" and "start_date > end_date"
  shows "main lib tbl sel start_date end_date
           = (Stopped, startup_page tbl @ [Error date_range_message])
    \<and> (\<forall>e \<in> set (snd (main lib tbl sel start_date end_date)). \<not> shows_data e)
    \<and> Warning no_data_message \<notin> set (snd (main lib tbl sel start_date end_date))"
proof -
  have m: "main lib tbl sel start_date end_date
             = (Stopped, startup_page tbl @ [Error date_range_message])"
    using assms by (simp add: main_def Let_def loaded_store_simps)
  have w: "Warning no_data_message \<notin> set (startup_page tbl)"
    by (simp add: startup_page_def Let_def)
  show ?thesis
    using startup_page_no_data [of tbl] w by (simp add: m)
qed

theorem invalid_date_range_stops_witness:
  "ex_df \<noteq> [] \<and> ((2023, 2, 1) :: date) > (2023, 1, 31)
   \<and> main exact_lib ex_df [stA, stB] (2023, 2, 1) (2023, 1, 31)
       = (Stopped, [Title title_text, MissingStations preferred_stations,
                    Error date_range_message])"
proof -
  have h1: "ex_df \<noteq> []" by (simp add: ex_df_def)
  have h2: "((2023, 2, 1) :: date) > (2023, 1, 31)" by simp
  have p: "startup_page ex_df = ([Title title_text, MissingStations preferred_stations] :: rat element list)"
    by (simp add: startup_page_def ex_df_def mk_row_def stA_def stB_def stC_def
        preferred_stations_def)
  from invalid_date_range_stops [OF h1 h2, of exact_lib "[stA, stB]"]
  have "main exact_lib ex_df [stA, stB] (2023, 2, 1) (2023, 1, 31)
          = (Stopped, startup_page ex_df @ [Error date_range_message])"
    by (rule conjunct1)
  with h1 h2 p show ?thesis
    by simp
qed

text \<open>
  Claim C3. Whenever \<open>date_from \<le> date_to\<close> holds and the filtered table is empty, the
  run stops with the warning of the empty result as its last element, before any section
  is rendered: the page holds no chart and no table. That message is not the message of
  the invalid date range, the one is a warning and the other an error, and the page does
  not hold the error.
\<close>

theorem empty_result_stops:
  assumes "tbl \<noteq> []" and "start_date \<le> end_date"
    and "filter_df tbl sel start_date end_date = []"
  shows "main lib tbl sel start_date end_date
           = (Stopped, startup_page tbl @ [Warning no_data_message])
    \<and> (\<forall>e \<in> set (snd (main lib tbl sel start_date end_date)). \<not> shows_data e)
    \<and> Error date_range_message \<notin> set (snd (main lib tbl sel start_date end_date))
    \<and> no_data_message \<noteq> date_range_message
    \<and> Warning no_data_message \<noteq> Error date_range_message"
proof -
  have m: "main lib tbl sel start_date end_date
             = (Stopped, startup_page tbl @ [Warning no_data_message])"
    using assms by (simp add: main_def Let_def loaded_store_simps main_filtered_rows)
  have w: "Error date_range_message \<notin> set (startup_page tbl)"
    by (simp add: startup_page_def Let_def)
  show ?thesis
    using startup_page_no_data [of tbl] w messages_differ by (simp add: m)
qed

theorem empty_result_stops_witness:
  "ex_df \<noteq> [] \<and> ((2023, 1, 1) :: date) \<le> (2023, 1, 31)
   \<and> filter_df ex_df [stC] (2023, 1, 1) (2023, 1, 31) = []
   \<and> main exact_lib ex_df [stC] (2023, 1, 1) (2023, 1, 31)
       = (Stopped, [Title title_text, MissingStations preferred_stations,
                    Warning no_data_message])"
proof -
  have h1: "ex_df \<noteq> []" by (simp add: ex_df_def)
  have h2: "((2023, 1, 1) :: date) \<le> (2023, 1, 31)" by simp
  have h3: "filter_df ex_df [stC] (2023, 1, 1) (2023, 1, 31) = []"
    by (simp add: filter_df_eq_filter keeps_def ex_df_def mk_row_def ts_def dt_date_def
        stA_def stB_def stC_def)
  have p: "startup_page ex_df = ([Title title_text, MissingStations preferred_stations] :: rat element list)"
    by (simp add: startup_page_def ex_df_def mk_row_def stA_def stB_def stC_def
        preferred_stations_def)
  from empty_result_stops [OF h1 h2 h3, of exact_lib]
  have "main exact_lib ex_df [stC] (2023, 1, 1) (2023, 1, 31)
          = (Stopped, startup_page ex_df @ [Warning no_data_message])"
    by (rule conjunct1)
  with h1 h2 h3 p show ?thesis
    by simp
qed

section \<open>The time series of section 1\<close>

lemma station_data_eq_filter:
  "station_data f st = filter (\<lambda>r. station r = st) f"
proof -
  have "map (\<lambda>s. s = st) (map station f) = map (\<lambda>r. station r = st) f"
    by simp
  then show ?thesis
    by (simp only: station_data_def select_rows_map)
qed

lemma station_traces_x:
  "tr \<in> set (station_traces f st) \<Longrightarrow> trace_x tr = map period (filter (\<lambda>r. station r = st) f)"
  by (auto simp add: station_traces_def four_traces_def station_data_eq_filter)

text \<open>
  The filtered table of this run holds station "A" in February and then in January: the
  x values of the traces of "A" come in that order, which is not chronological.
\<close>

theorem time_series_keeps_row_order:
  "filter_df ex_df [stA] (2023, 1, 1) (2023, 12, 31)
     = [mk_row (ts 2023 2) stA 10 5 7 3, mk_row (ts 2023 1) stA 20 5 1 2]
   \<and> map trace_x (fig_time [stA] (filter_df ex_df [stA] (2023, 1, 1) (2023, 12, 31)))
     = [[ts 2023 2, ts 2023 1], [ts 2023 2, ts 2023 1],
        [ts 2023 2, ts 2023 1], [ts 2023 2, ts 2023 1]]
   \<and> \<not> sorted (map ts_key [ts 2023 2, ts 2023 1])"
proof -
  have a: "filter_df ex_df [stA] (2023, 1, 1) (2023, 12, 31)
     = [mk_row (ts 2023 2) stA 10 5 7 3, mk_row (ts 2023 1) stA 20 5 1 2]"
    by (simp add: filter_df_eq_filter keeps_def ex_df_def mk_row_def ts_def dt_date_def
        stA_def stB_def stC_def)
  have b: "map trace_x (fig_time [stA]
             [mk_row (ts 2023 2) stA 10 5 7 3, mk_row (ts 2023 1) stA 20 5 1 2])
     = [[ts 2023 2, ts 2023 1], [ts 2023 2, ts 2023 1],
        [ts 2023 2, ts 2023 1], [ts 2023 2, ts 2023 1]]"
    by (simp add: fig_time_def station_traces_def four_traces_def station_data_eq_filter mk_row_def)
  have c: "\<not> sorted (map ts_key [ts 2023 2, ts 2023 1])"
    by (simp add: ts_key_def ts_def)
  from a b c show ?thesis
    by simp
qed

text \<open>
  Claim C9, amended. The time series view has four traces (down-boarding,
  down-alighting, up-boarding, up-alighting) for each selected station, in the order of
  the selection; each trace runs over the rows of its station in the order in which the
  rows appear in the filtered table, period against count. The script does not sort: the
  series are in chronological order whenever the rows of the table are.
\<close>

theorem time_series_traces:
  "fig_time sel f = concat (map (station_traces f) sel)
   \<and> station_traces f st =
       [\<lparr>trace_x = map period (filter (\<lambda>r. station r = st) f),
         trace_y = map boarding_down (filter (\<lambda>r. station r = st) f),
         trace_name = st @ sfx_down_boarding, trace_dash = solid\<rparr>,
        \<lparr>trace_x = map period (filter (\<lambda>r. station r = st) f),
         trace_y = map alighting_down (filter (\<lambda>r. station r = st) f),
         trace_name = st @ sfx_down_alighting, trace_dash = solid\<rparr>,
        \<lparr>trace_x = map period (filter (\<lambda>r. station r = st) f),
         trace_y = map boarding_up (filter (\<lambda>r. station r = st) f),
         trace_name = st @ sfx_up_boarding, trace_dash = dash\<rparr>,
        \<lparr>trace_x = map period (filter (\<lambda>r. station r = st) f),
         trace_y = map alighting_up (filter (\<lambda>r. station r = st) f),
         trace_name = st @ sfx_up_alighting, trace_dash = dash\<rparr>]
   \<and> length (fig_time sel f) = 4 * length sel
   \<and> (sorted (map (\<lambda>r. ts_key (period r)) f)
        \<longrightarrow> (\<forall>tr \<in> set (fig_time sel f). sorted (map ts_key (trace_x tr))))"
proof -
  have a: "fig_time sel f = concat (map (station_traces f) sel)"
    by (simp add: fig_time_def)
  have a': "station_traces f st =
       [\<lparr>trace_x = map period (filter (\<lambda>r. station r = st) f),
         trace_y = map boarding_down (filter (\<lambda>r. station r = st) f),
         trace_name = st @ sfx_down_boarding, trace_dash = solid\<rparr>,
        \<lparr>trace_x = map period (filter (\<lambda>r. station r = st) f),
         trace_y = map alighting_down (filter (\<lambda>r. station r = st) f),
         trace_name = st @ sfx_down_alighting, trace_dash = solid\<rparr>,
        \<lparr>trace_x = map period (filter (\<lambda>r. station r = st) f),
         trace_y = map boarding_up (filter (\<lambda>r. station r = st) f),
         trace_name = st @ sfx_up_boarding, trace_dash = dash\<rparr>,
        \<lparr>trace_x = map period (filter (\<lambda>r. station r = st) f),
         trace_y = map alighting_up (filter (\<lambda>r. station r = st) f),
         trace_name = st @ sfx_up_alighting, trace_dash = dash\<rparr>]"
    by (simp add: station_traces_def four_traces_def station_data_eq_filter)
  have b: "length (fig_time sel f) = 4 * length sel"
    by (induction sel) (simp_all add: fig_time_def station_traces_def four_traces_def)
  have c: "sorted (map ts_key (trace_x tr))"
    if s: "sorted (map (\<lambda>r. ts_key (period r)) f)" and t: "tr \<in> set (fig_time sel f)" for tr
  proof -
    from t obtain st where "tr \<in> set (station_traces f st)"
      by (auto simp add: fig_time_def)
    then have "trace_x tr = map period (filter (\<lambda>r. station r = st) f)"
      by (rule station_traces_x)
    moreover have "sorted (map (\<lambda>r. ts_key (period r)) (filter (\<lambda>r. station r = st) f))"
      using s by (rule sorted_filter)
    ultimately show ?thesis
      by (simp add: comp_def)
  qed
  from a a' b c show ?thesis
    by blast
qed

theorem time_series_traces_witness:
  "sorted (map (\<lambda>r. ts_key (period r)) ex_sorted)
   \<and> list_all (\<lambda>tr. sorted (map ts_key (trace_x tr))) (fig_time [stA] ex_sorted)
   \<and> length (fig_time [stA] ex_sorted) = 4"
proof -
  have h: "sorted (map (\<lambda>r. ts_key (period r)) ex_sorted)"
    by (simp add: ex_sorted_def mk_row_def ts_def ts_key_def)
  note t = time_series_traces [of "[stA]" ex_sorted stA]
  from t h have "\<forall>tr \<in> set (fig_time [stA] ex_sorted). sorted (map ts_key (trace_x tr))"
    by blast
  then have l: "list_all (\<lambda>tr. sorted (map ts_key (trace_x tr))) (fig_time [stA] ex_sorted)"
    by (simp add: list_all_iff)
  from t have n: "length (fig_time [stA] ex_sorted) = 4 * length [stA]"
    by blast
  from h l n show ?thesis
    by simp
qed


section \<open>The month axis and the cells of the heatmap\<close>

text \<open>
  Comparing two numbers digit by digit: the quotient first, then the remainder.
\<close>

lemma split_eq:
  fixes x y k :: nat
  shows "x = y \<longleftrightarrow> x div k = y div k \<and> x mod k = y mod k"
  by (metis div_mult_mod_eq)

lemma split_less:
  fixes x y k :: nat
  assumes "0 < k"
  shows "x < y \<longleftrightarrow> x div k < y div k \<or> (x div k = y div k \<and> x mod k < y mod k)"
proof -
  define qx rx qy ry where q: "qx = x div k" "rx = x mod k" "qy = y div k" "ry = y mod k"
  have x: "x = qx * k + rx" and y: "y = qy * k + ry"
    by (simp_all add: q)
  have mx: "rx < k" and my: "ry < k"
    using assms by (simp_all add: q)
  have up: "a * k + c < b * k" if "a < b" "c < k" for a b c :: nat
  proof -
    from that(1) have "Suc a * k \<le> b * k"
      by (simp only: Suc_le_eq [symmetric] mult_le_mono1)
    with that(2) show ?thesis
      by simp
  qed
  have "x < y \<longleftrightarrow> qx < qy \<or> (qx = qy \<and> rx < ry)"
  proof -
    consider "qx < qy" | "qx = qy" | "qy < qx"
      by linarith
    then show ?thesis
    proof cases
      case 1
      from up [OF 1 mx] x y have "x < y"
        by linarith
      with 1 show ?thesis
        by simp
    next
      case 2
      from x y 2 have "x < y \<longleftrightarrow> rx < ry"
        by simp
      with 2 show ?thesis
        by simp
    next
      case 3
      from up [OF 3 my] x y have "y < x"
        by linarith
      with 3 show ?thesis
        by auto
    qed
  qed
  then show ?thesis
    by (simp only: q)
qed

lemma year_digits_less:
  fixes a b :: nat
  assumes "a < 10000" "b < 10000"
  shows "[48 + a div 1000 mod 10, 48 + a div 100 mod 10, 48 + a div 10 mod 10, 48 + a mod 10]
          < [48 + b div 1000 mod 10, 48 + b div 100 mod 10, 48 + b div 10 mod 10, 48 + b mod 10]
         \<longleftrightarrow> a < b"
proof -
  have ma: "a div 1000 mod 10 = a div 1000" and mb: "b div 1000 mod 10 = b div 1000"
    using assms by simp_all
  have d2: "x div 10 div 10 = x div 100" and d3: "x div 100 div 10 = x div 1000" for x :: nat
    by (simp_all add: div_mult2_eq [symmetric])
  have l1: "a < b \<longleftrightarrow> a div 10 < b div 10 \<or> (a div 10 = b div 10 \<and> a mod 10 < b mod 10)"
    by (rule split_less) simp
  have l2: "a div 10 < b div 10 \<longleftrightarrow>
      a div 100 < b div 100 \<or> (a div 100 = b div 100 \<and> a div 10 mod 10 < b div 10 mod 10)"
    using split_less [of 10 "a div 10" "b div 10"] by (simp add: d2 d3)
  have l3: "a div 100 < b div 100 \<longleftrightarrow>
      a div 1000 < b div 1000 \<or> (a div 1000 = b div 1000 \<and> a div 100 mod 10 < b div 100 mod 10)"
    using split_less [of 10 "a div 100" "b div 100"] by (simp add: d2 d3)
  have e2: "a div 10 = b div 10 \<longleftrightarrow>
      a div 100 = b div 100 \<and> a div 10 mod 10 = b div 10 mod 10"
    using split_eq [of "a div 10" "b div 10" 10] by (simp add: d2 d3)
  have e3: "a div 100 = b div 100 \<longleftrightarrow>
      a div 1000 = b div 1000 \<and> a div 100 mod 10 = b div 100 mod 10"
    using split_eq [of "a div 100" "b div 100" 10] by (simp add: d2 d3)
  show ?thesis
    unfolding l1 l2 l3 e2 e3 by (simp add: ma mb) blast
qed

lemma month_digits_less:
  fixes a b :: nat
  assumes "a < 100" "b < 100"
  shows "[48 + a div 10 mod 10, 48 + a mod 10] < [48 + b div 10 mod 10, 48 + b mod 10]
         \<longleftrightarrow> a < b"
proof -
  have ma: "a div 10 mod 10 = a div 10" and mb: "b div 10 mod 10 = b div 10"
    using assms by simp_all
  have l1: "a < b \<longleftrightarrow> a div 10 < b div 10 \<or> (a div 10 = b div 10 \<and> a mod 10 < b mod 10)"
    by (rule split_less) simp
  show ?thesis
    unfolding l1 by (simp add: ma mb)
qed

lemma year_digits_eq:
  fixes a b :: nat
  assumes "[48 + a div 1000 mod 10, 48 + a div 100 mod 10, 48 + a div 10 mod 10, 48 + a mod 10]
          = [48 + b div 1000 mod 10, 48 + b div 100 mod 10, 48 + b div 10 mod 10, 48 + b mod 10]"
    and "a < 10000" "b < 10000"
  shows "a = b"
  using assms year_digits_less [of a b] year_digits_less [of b a]
  by (metis less_irrefl linorder_neqE_nat)

lemma append_less_same_length:
  fixes xs ys :: "('a::linorder) list"
  assumes "length xs = length ys"
  shows "xs @ us < ys @ vs \<longleftrightarrow> xs < ys \<or> (xs = ys \<and> us < vs)"
  using assms by (induction xs ys rule: list_induct2) auto

lemma strftime_Y_m_less:
  assumes "valid_timestamp a" and "valid_timestamp b"
  shows "strftime_Y_m a < strftime_Y_m b \<longleftrightarrow> year_month a < year_month b"
proof -
  let ?yd = "\<lambda>n::nat. [48 + n div 1000 mod 10, 48 + n div 100 mod 10, 48 + n div 10 mod 10, 48 + n mod 10]"
  let ?md = "\<lambda>n::nat. [48 + n div 10 mod 10, 48 + n mod 10]"
  have s: "strftime_Y_m t = ?yd (year t) @ [45] @ ?md (month t)" for t
    by (simp add: strftime_Y_m_def)
  have ya: "year a < 10000" and yb: "year b < 10000" and ma: "month a < 100" and mb: "month b < 100"
    using assms by (simp_all add: valid_timestamp_def)
  have y: "?yd (year a) < ?yd (year b) \<longleftrightarrow> year a < year b"
    using ya yb by (rule year_digits_less)
  have ye: "?yd (year a) = ?yd (year b) \<longleftrightarrow> year a = year b"
  proof
    assume "?yd (year a) = ?yd (year b)"
    then show "year a = year b"
      using ya yb by (rule year_digits_eq)
  next
    assume "year a = year b"
    then show "?yd (year a) = ?yd (year b)"
      by simp
  qed
  have m: "?md (month a) < ?md (month b) \<longleftrightarrow> month a < month b"
    using ma mb by (rule month_digits_less)
  have "strftime_Y_m a < strftime_Y_m b \<longleftrightarrow>
      ?yd (year a) < ?yd (year b) \<or> (?yd (year a) = ?yd (year b) \<and> ?md (month a) < ?md (month b))"
    unfolding s by (subst append_less_same_length) simp_all
  also have "\<dots> \<longleftrightarrow> year a < year b \<or> (year a = year b \<and> month a < month b)"
    unfolding y ye m ..
  also have "\<dots> \<longleftrightarrow> year_month a < year_month b"
    by (auto simp add: year_month_def)
  finally show ?thesis .
qed

lemma sort_remdups_cong:
  fixes xs ys :: "('a::linorder) list"
  shows "set xs = set ys \<Longrightarrow> sort (remdups xs) = sort (remdups ys)"
  by (simp add: sorted_list_of_set_sort_remdups [symmetric])

lemma heat_group_keys:
  "map fst (heat_groups lib f) = sort (remdups (map (\<lambda>r. (strftime_Y_m (period r), station r)) f))"
  by (simp add: heat_groups_def groupby_mean_def group_keys_def heat_rows_def comp_def)

lemma heat_index_eq:
  "heat_index (heatmap_data lib f) = sort (remdups (map (\<lambda>r. strftime_Y_m (period r)) f))"
proof -
  have "map (\<lambda>p. fst (fst p)) (heat_groups lib f) = map fst (map fst (heat_groups lib f))"
    by simp
  then have "set (map (\<lambda>p. fst (fst p)) (heat_groups lib f))
      = set (map (\<lambda>r. strftime_Y_m (period r)) f)"
    unfolding heat_group_keys by (simp add: image_image)
  then show ?thesis
    by (simp add: heatmap_data_def unstack_def Let_def sort_remdups_cong)
qed

lemma heat_columns_eq:
  "heat_columns (heatmap_data lib f) = sort (remdups (map station f))"
proof -
  have "map (\<lambda>p. snd (fst p)) (heat_groups lib f) = map snd (map fst (heat_groups lib f))"
    by simp
  then have "set (map (\<lambda>p. snd (fst p)) (heat_groups lib f)) = set (map station f)"
    unfolding heat_group_keys by (simp add: image_image)
  then show ?thesis
    by (simp add: heatmap_data_def unstack_def Let_def sort_remdups_cong)
qed

lemma heat_group_lookup:
  "map_of (heat_groups lib f) (m, c) =
     (if filter (\<lambda>r. strftime_Y_m (period r) = m \<and> station r = c) f = [] then None
      else Some (mean_f64 lib (map (\<lambda>r. wrap64 (boarding_down r + boarding_up r))
                   (filter (\<lambda>r. strftime_Y_m (period r) = m \<and> station r = c) f))))"
proof -
  let ?key = "\<lambda>r. (strftime_Y_m (period r), station r)"
  have g: "map snd (group_rows fst (heat_rows f) k)
      = map (\<lambda>r. wrap64 (boarding_down r + boarding_up r)) (filter (\<lambda>r. ?key r = k) f)" for k
    by (simp add: group_rows_def heat_rows_def filter_map comp_def)
  have e: "(filter (\<lambda>r. ?key r = (m, c)) f = []) \<longleftrightarrow> (m, c) \<notin> set (map ?key f)"
    by (auto simp add: filter_empty_conv)
  have "map_of (heat_groups lib f) (m, c) =
      (if (m, c) \<in> set (group_keys fst (heat_rows f))
       then Some (mean_f64 lib (map snd (group_rows fst (heat_rows f) (m, c)))) else None)"
    by (simp add: heat_groups_def groupby_mean_def map_of_map_restrict restrict_map_def)
  also have "set (group_keys fst (heat_rows f)) = set (map ?key f)"
    by (simp add: group_keys_def heat_rows_def comp_def)
  finally show ?thesis
    using e by (simp add: g)
qed

lemma strftime_Y_m_format:
  "strftime_Y_m t = format_Y_m (year_month t)"
  by (simp add: format_Y_m_def year_month_def strftime_Y_m_def)

lemma format_Y_m_strict_mono:
  assumes "valid_timestamp a" and "valid_timestamp b" and "year_month a < year_month b"
  shows "format_Y_m (year_month a) < format_Y_m (year_month b)"
  using assms strftime_Y_m_less [of a b] by (simp add: strftime_Y_m_format)

lemma month_axis_eq:
  assumes v: "\<forall>r \<in> set f. valid_timestamp (period r)"
  shows "heat_index (heatmap_data lib f)
         = map format_Y_m (sort (remdups (map (\<lambda>r. year_month (period r)) f)))"
proof -
  let ?ps = "sort (remdups (map (\<lambda>r. year_month (period r)) f))"
  have sp: "sorted_wrt (<) ?ps"
    by (simp add: strict_sorted_iff)
  have mono: "format_Y_m p < format_Y_m q" if "p \<in> set ?ps" "q \<in> set ?ps" "p < q" for p q
  proof -
    from that(1) obtain r1 where r1: "r1 \<in> set f" "p = year_month (period r1)"
      by auto
    from that(2) obtain r2 where r2: "r2 \<in> set f" "q = year_month (period r2)"
      by auto
    from v r1(1) r2(1) have "valid_timestamp (period r1)" "valid_timestamp (period r2)"
      by simp_all
    with that(3) show ?thesis
      unfolding r1(2) r2(2) by (rule format_Y_m_strict_mono [rotated 2])
  qed
  have "sorted_wrt (\<lambda>p q. format_Y_m p < format_Y_m q) ?ps"
  proof (rule sorted_wrt_mono_rel [OF _ sp])
    fix p q
    assume "p \<in> set ?ps" "q \<in> set ?ps" "p < q"
    then show "format_Y_m p < format_Y_m q"
      by (rule mono)
  qed
  then have "sorted_wrt (<) (map format_Y_m ?ps)"
    by (simp add: sorted_wrt_map)
  then have a: "sorted (map format_Y_m ?ps)" and b: "distinct (map format_Y_m ?ps)"
    by (simp_all add: strict_sorted_iff)
  have c: "set (map format_Y_m ?ps) = set (heat_index (heatmap_data lib f))"
    by (simp add: heat_index_eq image_image strftime_Y_m_format)
  have d: "sorted (heat_index (heatmap_data lib f))" "distinct (heat_index (heatmap_data lib f))"
    by (simp_all add: heat_index_eq)
  from d a b c [symmetric] show ?thesis
    by (metis sorted_distinct_set_unique)
qed

lemma heat_cells_eq:
  "heat_cells (heatmap_data lib f) =
     map (\<lambda>m. map (\<lambda>c.
            if filter (\<lambda>r. strftime_Y_m (period r) = m \<and> station r = c) f = [] then None
            else Some (mean_f64 lib (map (\<lambda>r. wrap64 (boarding_down r + boarding_up r))
                         (filter (\<lambda>r. strftime_Y_m (period r) = m \<and> station r = c) f))))
          (heat_columns (heatmap_data lib f)))
       (heat_index (heatmap_data lib f))"
  by (simp add: heatmap_data_def unstack_def Let_def heat_group_lookup)

lemma wrap64_id:
  "int64 v \<Longrightarrow> wrap64 v = v"
  by (simp add: int64_def wrap64_def)

lemma heat_cells_exact:
  assumes "\<forall>r \<in> set f. int64 (boarding_down r + boarding_up r)"
  shows "heat_cells (heatmap_data lib f) =
     map (\<lambda>m. map (\<lambda>c.
            if filter (\<lambda>r. strftime_Y_m (period r) = m \<and> station r = c) f = [] then None
            else Some (mean_f64 lib (map (\<lambda>r. boarding_down r + boarding_up r)
                         (filter (\<lambda>r. strftime_Y_m (period r) = m \<and> station r = c) f))))
          (heat_columns (heatmap_data lib f)))
       (heat_index (heatmap_data lib f))"
proof -
  have w: "map (\<lambda>r. wrap64 (boarding_down r + boarding_up r)) (filter P f)
        = map (\<lambda>r. boarding_down r + boarding_up r) (filter P f)" for P
  proof (rule map_cong [OF refl])
    fix r
    assume "r \<in> set (filter P f)"
    then have "r \<in> set f"
      by simp
    with assms show "wrap64 (boarding_down r + boarding_up r) = boarding_down r + boarding_up r"
      by (simp add: wrap64_id)
  qed
  show ?thesis
    by (simp only: heat_cells_eq w)
qed

text \<open>
  The script's own sequence on the object, the two assignments and the grouping of what
  they wrote, returns this matrix.
\<close>

lemma map_of_assign:
  "map_of (extra (assign name c ob)) = (map_of (extra ob))(name \<mapsto> c)"
  by (simp add: assign_def update_conv')

lemma column_names_differ:
  "col_month \<noteq> col_total" "col_down_diff \<noteq> col_up_diff"
  by (simp_all add: col_month_def col_total_def col_down_diff_def col_up_diff_def)

lemma zip3_map:
  "zip (zip (map g1 xs) (map g2 xs)) (map g3 xs) = map (\<lambda>x. ((g1 x, g2 x), g3 x)) xs"
  by (induction xs) simp_all

lemma map2_map:
  "map2 h (map g1 xs) (map g2 xs) = map (\<lambda>x. h (g1 x) (g2 x)) xs"
  by (induction xs) simp_all

lemma pivot_add_heat_columns:
  "pivot lib (add_heat_columns ob) = Inr (heatmap_data lib (body ob))"
proof -
  let ?months = "map strftime_Y_m (map period (body ob))"
  let ?totals = "series_add (map boarding_down (body ob)) (map boarding_up (body ob))"
  let ?o2 = "add_heat_columns ob"
  have o2: "?o2 = assign col_total (IntCol ?totals) (assign col_month (StrCol ?months) ob)"
    by (simp add: add_heat_columns_def Let_def body_assign)
  have m: "str_column col_month ?o2 = Inr ?months"
    unfolding o2 using column_names_differ(1) by (simp add: str_column_def map_of_assign)
  have t: "int_column col_total ?o2 = Inr ?totals"
    unfolding o2 by (simp add: int_column_def map_of_assign)
  have b: "body ?o2 = body ob"
    unfolding o2 by (simp add: body_assign)
  have z: "zip (zip ?months (map station (body ob))) ?totals = heat_rows (body ob)"
    by (simp add: series_add_def map2_map zip3_map heat_rows_def)
  show ?thesis
    by (simp only: pivot_def m t sum.case b z heatmap_data_def heat_groups_def)
qed

text \<open>
  Stations "A" and "B" are selected, and only "A" has a row in February 2023: the
  heatmap of that run has one column, for two selected stations.
\<close>

theorem monthly_heat_fewer_columns:
  "filter_df ex_df [stA, stB] (2023, 2, 1) (2023, 2, 28) = [mk_row (ts 2023 2) stA 10 5 7 3]
   \<and> heat_columns (heatmap_data exact_lib (filter_df ex_df [stA, stB] (2023, 2, 1) (2023, 2, 28)))
       = [stA]
   \<and> card (set [stA, stB]) = 2"
proof -
  have a: "filter_df ex_df [stA, stB] (2023, 2, 1) (2023, 2, 28)
           = [mk_row (ts 2023 2) stA 10 5 7 3]"
    by (simp add: filter_df_eq_filter keeps_def ex_df_def mk_row_def ts_def dt_date_def
        stA_def stB_def stC_def)
  have b: "heat_columns (heatmap_data exact_lib [mk_row (ts 2023 2) stA 10 5 7 3]) = [stA]"
    by (simp add: heat_columns_eq mk_row_def)
  have c: "card (set [stA, stB]) = 2"
    by (simp add: stA_def stB_def)
  from a b c show ?thesis
    by simp
qed

text \<open>
  Claim C7, amended. The heatmap has one row per distinct month string of the filtered
  table (per distinct year and month, for valid timestamps) and one column per distinct
  station that occurs in the filtered table, both ascending; that is at most the number
  of distinct selected stations, and less when a selected station has no row in the
  date interval. The cell of a month and a station with rows holds the mean, as the
  library computes it in floating point, of the 64-bit sums of down-direction plus
  up-direction boardings of these rows, which are the exact sums when they fit in 64
  bits; the cell of a pair without rows holds the missing value \<open>None\<close>, which is not a
  number.
\<close>

theorem monthly_heat_shape:
  assumes "f = filter_df tbl sel start_date end_date"
  shows "heat_index (heatmap_data lib f) = sort (remdups (map (\<lambda>r. strftime_Y_m (period r)) f))
    \<and> heat_columns (heatmap_data lib f) = sort (remdups (map station f))
    \<and> length (heat_index (heatmap_data lib f)) = card ((\<lambda>r. strftime_Y_m (period r)) ` set f)
    \<and> ((\<forall>r \<in> set f. valid_timestamp (period r)) \<longrightarrow>
         length (heat_index (heatmap_data lib f)) = card ((\<lambda>r. year_month (period r)) ` set f))
    \<and> length (heat_columns (heatmap_data lib f)) = card (station ` set f)
    \<and> length (heat_columns (heatmap_data lib f)) \<le> card (set sel)
    \<and> ((\<exists>s \<in> set sel. s \<notin> station ` set f) \<longrightarrow>
         length (heat_columns (heatmap_data lib f)) < card (set sel))
    \<and> length (heat_cells (heatmap_data lib f)) = length (heat_index (heatmap_data lib f))
    \<and> (\<forall>cells \<in> set (heat_cells (heatmap_data lib f)).
          length cells = length (heat_columns (heatmap_data lib f)))
    \<and> heat_cells (heatmap_data lib f) =
         map (\<lambda>m. map (\<lambda>c.
                if filter (\<lambda>r. strftime_Y_m (period r) = m \<and> station r = c) f = [] then None
                else Some (mean_f64 lib (map (\<lambda>r. wrap64 (boarding_down r + boarding_up r))
                             (filter (\<lambda>r. strftime_Y_m (period r) = m \<and> station r = c) f))))
              (heat_columns (heatmap_data lib f)))
           (heat_index (heatmap_data lib f))
    \<and> ((\<forall>r \<in> set f. int64 (boarding_down r + boarding_up r)) \<longrightarrow>
        heat_cells (heatmap_data lib f) =
         map (\<lambda>m. map (\<lambda>c.
                if filter (\<lambda>r. strftime_Y_m (period r) = m \<and> station r = c) f = [] then None
                else Some (mean_f64 lib (map (\<lambda>r. boarding_down r + boarding_up r)
                             (filter (\<lambda>r. strftime_Y_m (period r) = m \<and> station r = c) f))))
              (heat_columns (heatmap_data lib f)))
           (heat_index (heatmap_data lib f)))
    \<and> pivot lib (add_heat_columns \<lparr>body = f, extra = []\<rparr>) = Inr (heatmap_data lib f)"
proof -
  let ?h = "heatmap_data lib f"
  note i = heat_index_eq [of lib f] and c = heat_columns_eq [of lib f]
  have li: "length (heat_index ?h) = card ((\<lambda>r. strftime_Y_m (period r)) ` set f)"
    by (simp add: i length_remdups_card_conv)
  have lv: "length (heat_index ?h) = card ((\<lambda>r. year_month (period r)) ` set f)"
    if "\<forall>r \<in> set f. valid_timestamp (period r)"
  proof -
    have "length (heat_index ?h)
          = length (sort (remdups (map (\<lambda>r. year_month (period r)) f)))"
      by (simp only: month_axis_eq [OF that] length_map)
    then show ?thesis
      by (simp add: length_remdups_card_conv)
  qed
  have lc: "length (heat_columns ?h) = card (station ` set f)"
    by (simp add: c length_remdups_card_conv)
  have sub: "station ` set f \<subseteq> set sel"
    by (auto simp add: assms filter_df_eq_filter keeps_def)
  then have ls: "length (heat_columns ?h) \<le> card (set sel)"
    unfolding lc by (simp add: card_mono)
  have lt: "length (heat_columns ?h) < card (set sel)" if "\<exists>s \<in> set sel. s \<notin> station ` set f"
  proof -
    from that sub have "station ` set f \<subset> set sel"
      by blast
    then show ?thesis
      unfolding lc by (simp add: psubset_card_mono)
  qed
  note e = heat_cells_eq [of lib f]
  have n: "length (heat_cells ?h) = length (heat_index ?h)"
    by (subst e) simp
  have r: "\<forall>cells \<in> set (heat_cells ?h). length cells = length (heat_columns ?h)"
    by (subst e) auto
  note x = heat_cells_exact [of f lib]
  have p: "pivot lib (add_heat_columns \<lparr>body = f, extra = []\<rparr>) = Inr ?h"
    by (simp add: pivot_add_heat_columns)
  from i c li lv lc ls lt n r e x p show ?thesis
    by blast
qed

theorem monthly_heat_shape_witness:
  "heat_index (heatmap_data exact_lib ex_heat)
     = [strftime_Y_m (ts 2023 1), strftime_Y_m (ts 2023 2)]
   \<and> heat_columns (heatmap_data exact_lib ex_heat) = [stA, stB]
   \<and> heat_cells (heatmap_data exact_lib ex_heat)
     = [[Some (33 / 2), None], [None, Some 10]]"
proof -
  have f: "ex_heat = filter_df ex_heat [stA, stB, stC] (2023, 1, 1) (2023, 12, 31)"
    by (simp add: filter_df_eq_filter keeps_def ex_heat_def mk_row_def ts_def dt_date_def
        stA_def stB_def stC_def)
  have b: "\<forall>r \<in> set ex_heat. int64 (boarding_down r + boarding_up r)"
    by (simp add: ex_heat_def mk_row_def int64_def)
  note t = monthly_heat_shape [OF f, of exact_lib]
  from t have i: "heat_index (heatmap_data exact_lib ex_heat)
      = sort (remdups (map (\<lambda>r. strftime_Y_m (period r)) ex_heat))"
    by (rule conjunct1)
  from t have c: "heat_columns (heatmap_data exact_lib ex_heat)
      = sort (remdups (map station ex_heat))"
    by (rule conjunct2 [THEN conjunct1])
  from t b have x: "heat_cells (heatmap_data exact_lib ex_heat) =
         map (\<lambda>m. map (\<lambda>c.
                if filter (\<lambda>r. strftime_Y_m (period r) = m \<and> station r = c) ex_heat = []
                then None
                else Some (mean_f64 exact_lib (map (\<lambda>r. boarding_down r + boarding_up r)
                       (filter (\<lambda>r. strftime_Y_m (period r) = m \<and> station r = c) ex_heat))))
              (heat_columns (heatmap_data exact_lib ex_heat)))
           (heat_index (heatmap_data exact_lib ex_heat))"
    by blast
  have i': "sort (remdups (map (\<lambda>r. strftime_Y_m (period r)) ex_heat))
      = [strftime_Y_m (ts 2023 1), strftime_Y_m (ts 2023 2)]"
    by (simp add: ex_heat_def mk_row_def ts_def strftime_Y_m_def)
  have c': "sort (remdups (map station ex_heat)) = [stA, stB]"
    by (simp add: ex_heat_def mk_row_def stA_def stB_def)
  have "heat_cells (heatmap_data exact_lib ex_heat)
     = [[Some (33 / 2), None], [None, Some 10]]"
    by (subst x, simp only: i c i' c')
       (simp add: ex_heat_def mk_row_def ts_def strftime_Y_m_def stA_def stB_def exact_lib_def)
  with i c i' c' show ?thesis
    by simp
qed

text \<open>
  Claim C10. For every filtered table with valid timestamps and every permutation of
  its rows, the month axis of the heatmap is the same list: the distinct (year, month)
  pairs of the table in ascending, that is chronological, order, each printed as
  \<^verbatim>\<open>YYYY-MM\<close>. The order of these strings is the order of the pairs.
\<close>

theorem month_axis_chronological:
  assumes "\<forall>r \<in> set f. valid_timestamp (period r)" and "mset f' = mset f"
  shows "heat_index (heatmap_data lib f)
           = map format_Y_m (sort (remdups (map (\<lambda>r. year_month (period r)) f)))
    \<and> heat_index (heatmap_data lib f') = heat_index (heatmap_data lib f)
    \<and> sorted_wrt (<) (heat_index (heatmap_data lib f))"
proof -
  have a: "heat_index (heatmap_data lib f)
           = map format_Y_m (sort (remdups (map (\<lambda>r. year_month (period r)) f)))"
    using assms(1) by (rule month_axis_eq)
  from assms(2) have "set f' = set f"
    by (rule mset_eq_setD)
  then have b: "heat_index (heatmap_data lib f') = heat_index (heatmap_data lib f)"
    by (simp add: heat_index_eq sort_remdups_cong)
  have c: "sorted_wrt (<) (heat_index (heatmap_data lib f))"
    by (simp add: heat_index_eq strict_sorted_iff)
  from a b c show ?thesis
    by simp
qed

theorem month_axis_chronological_witness:
  "list_all (\<lambda>r. valid_timestamp (period r)) ex_df
   \<and> mset (rev ex_df) = mset ex_df
   \<and> heat_index (heatmap_data exact_lib (rev ex_df)) = heat_index (heatmap_data exact_lib ex_df)
   \<and> heat_index (heatmap_data exact_lib ex_df)
       = [format_Y_m (2023, 1), format_Y_m (2023, 2), format_Y_m (2023, 3)]
   \<and> format_Y_m (2023, 1) = [50, 48, 50, 51, 45, 48, 49]"
proof -
  have v: "\<forall>r \<in> set ex_df. valid_timestamp (period r)"
    by (simp add: ex_df_def mk_row_def ts_def valid_timestamp_def)
  have m: "mset (rev ex_df) = mset ex_df"
    by simp
  note t = month_axis_chronological [OF v m, of exact_lib]
  from t have a: "heat_index (heatmap_data exact_lib ex_df)
      = map format_Y_m (sort (remdups (map (\<lambda>r. year_month (period r)) ex_df)))"
    by (rule conjunct1)
  from t have b: "heat_index (heatmap_data exact_lib (rev ex_df)) = heat_index (heatmap_data exact_lib ex_df)"
    by (rule conjunct2 [THEN conjunct1])
  have s: "sort (remdups (map (\<lambda>r. year_month (period r)) ex_df))
      = [(2023, 1), (2023, 2), (2023, 3)]"
    by (simp add: ex_df_def mk_row_def ts_def year_month_def)
  have l: "list_all (\<lambda>r. valid_timestamp (period r)) ex_df"
    using v by (simp add: list_all_iff)
  have d: "format_Y_m (2023, 1) = [50, 48, 50, 51, 45, 48, 49]"
    by (simp add: format_Y_m_def strftime_Y_m_def)
  from l m b a [unfolded s] d show ?thesis
    by simp
qed


section \<open>The differences of section 8\<close>

lemma add_diff_columns_eq:
  "add_diff_columns ob =
     assign col_up_diff (IntCol (map (\<lambda>r. wrap64 (boarding_up r - alighting_up r)) (body ob)))
       (assign col_down_diff
          (IntCol (map (\<lambda>r. wrap64 (boarding_down r - alighting_down r)) (body ob))) ob)"
  by (simp add: add_diff_columns_def Let_def body_assign series_sub_def map2_map)

lemma body_add_diff_columns:
  "body (add_diff_columns ob) = body ob"
  by (simp add: add_diff_columns_eq body_assign)

lemma diff_columns_read:
  "int_column col_down_diff (add_diff_columns ob)
     = Inr (map (\<lambda>r. wrap64 (boarding_down r - alighting_down r)) (body ob))"
  "int_column col_up_diff (add_diff_columns ob)
     = Inr (map (\<lambda>r. wrap64 (boarding_up r - alighting_up r)) (body ob))"
  using column_names_differ(2)
  by (simp_all add: add_diff_columns_eq int_column_def map_of_assign)

lemma melt_add_diff_columns:
  "melt (add_diff_columns ob) = Inr (long_form (body ob))"
  by (simp only: melt_def diff_columns_read sum.case body_add_diff_columns map2_map
      long_form_def)



lemma emit_simps:
  "mem (emit es e) = mem e"
  "df (emit es e) = df e"
  "filtered_df (emit es e) = filtered_df e"
  "page (emit es e) = page e @ es"
  by (simp_all add: emit_def)

lemma diff_view_eq:
  "diff_view e =
     Inr (emit [PlotlyChart (PxBox (long_form (filtered_rows e)))]
           ((emit [Header 8] e)\<lparr>mem := modify (filtered_df e) add_diff_columns (mem e)\<rparr>))"
  by (simp add: diff_view_def Let_def emit_simps modify_simps melt_add_diff_columns
      filtered_rows_def)



text \<open>
  The source accepts a count that is negative. For a row with \<^verbatim>\<open>2^63 - 1\<close>
  down-direction boardings and -1 alightings the exact difference is \<^verbatim>\<open>2^63\<close>, and
  the column that section 8 writes holds \<^verbatim>\<open>-2^63\<close>.
\<close>

lemma differential_wraps:
  "melt (add_diff_columns \<lparr>body = ex_wrap, extra = []\<rparr>)
     = Inr [\<lparr>long_station = stA, direction = col_down_diff,
             diff_value = - 9223372036854775808\<rparr>,
            \<lparr>long_station = stA, direction = col_up_diff, diff_value = 0\<rparr>]
   \<and> map (\<lambda>r. boarding_down r - alighting_down r) ex_wrap = [9223372036854775808]
   \<and> \<not> list_all nonneg_row ex_wrap"
  by (simp add: melt_add_diff_columns long_form_def ex_wrap_def mk_row_def wrap64_def
      nonneg_row_def)

section \<open>Which objects the script writes to\<close>

lemma keeps_objects_refl:
  "keeps_objects e e"
  by (simp add: keeps_objects_def)

lemma keeps_objects_trans [trans]:
  "keeps_objects e1 e2 \<Longrightarrow> keeps_objects e2 e3 \<Longrightarrow> keeps_objects e1 e3"
  by (auto simp add: keeps_objects_def)

lemma keeps_objects_emit:
  "keeps_objects e (emit es e)"
  by (simp add: keeps_objects_def emit_simps)

lemma four_traces_station_data:
  "four_traces s (select_rows f (map (\<lambda>x. x = s) (map station f))) = station_traces f s"
  by (simp add: station_traces_def station_data_def)

lemma getitem_mask_simps:
  "fst (getitem_mask m a st) = fresh st"
  "fresh (snd (getitem_mask m a st)) = Suc (fresh st)"
  "objs (snd (getitem_mask m a st)) = (objs st)(fresh st := mask_obj m (objs st a))"
  by (simp_all add: getitem_mask_def alloc_simps)

lemma time_loop_effect:
  assumes "a < fresh st"
  shows "fst (time_loop a sel st) = fig_time sel (body (objs st a))
         \<and> fresh st \<le> fresh (snd (time_loop a sel st))
         \<and> (\<forall>b < fresh st. objs (snd (time_loop a sel st)) b = objs st b)"
  using assms
proof (induction sel arbitrary: st)
  case Nil
  show ?case
    by (simp add: fig_time_def)
next
  case (Cons s ss)
  define m where "m = map (\<lambda>x. x = s) (map station (body (objs st a)))"
  define r1 where "r1 = getitem_mask m a st"
  have f1: "fst r1 = fresh st" and n1: "fresh (snd r1) = Suc (fresh st)"
    and o1: "objs (snd r1) = (objs st)(fresh st := mask_obj m (objs st a))"
    by (simp_all add: r1_def getitem_mask_simps)
  from Cons.prems have a1: "a < fresh (snd r1)" and ne: "a \<noteq> fresh st"
    by (simp_all add: n1)
  have oa: "objs (snd r1) a = objs st a"
    using ne by (simp add: o1)
  note ih = Cons.IH [OF a1, unfolded oa]
  have t: "four_traces s (body (objs (snd r1) (fst r1))) = station_traces (body (objs st a)) s"
    unfolding f1 o1 by (simp only: fun_upd_same body_mask_obj m_def four_traces_station_data)
  have l: "time_loop a (s # ss) st
           = (four_traces s (body (objs (snd r1) (fst r1))) @ fst (time_loop a ss (snd r1)),
              snd (time_loop a ss (snd r1)))"
    by (simp only: time_loop.simps Let_def r1_def m_def)
  have p1: "fst (time_loop a (s # ss) st) = fig_time (s # ss) (body (objs st a))"
    using ih by (simp only: l t fst_conv) (simp add: fig_time_def)
  have p2: "fresh st \<le> fresh (snd (time_loop a (s # ss) st))"
    using ih by (simp only: l snd_conv) (simp add: n1)
  have p3: "\<forall>b < fresh st. objs (snd (time_loop a (s # ss) st)) b = objs st b"
    using ih by (simp only: l snd_conv) (simp add: n1 o1)
  from p1 p2 p3 show ?case
    by (intro conjI)
qed

lemma time_view_effect:
  assumes "filtered_df e < fresh (mem e)"
  shows "keeps_objects e (time_view sel e)"
    and "page (time_view sel e)
         = page e @ [Header 1, PlotlyChart (GoFigure (fig_time sel (filtered_rows e)))]"
  using time_loop_effect [OF assms, of sel]
  by (simp_all add: time_view_def Let_def emit_simps keeps_objects_def filtered_rows_def)

lemma plain_views_mem:
  "mem (bar_view lib e) = mem e"
  "mem (pie_view e) = mem e"
  "mem (scatter_view e) = mem e"
  "mem (table_view e) = mem e"
  "mem (stats_view lib e) = mem e"
  by (simp_all add: bar_view_def pie_view_def scatter_view_def table_view_def stats_view_def
      emit_simps)

lemma plain_views_keep:
  "keeps_objects e (bar_view lib e)"
  "keeps_objects e (pie_view e)"
  "keeps_objects e (scatter_view e)"
  "keeps_objects e (table_view e)"
  "keeps_objects e (stats_view lib e)"
  by (simp_all add: bar_view_def pie_view_def scatter_view_def table_view_def stats_view_def
      keeps_objects_emit)

lemma heat_view_eq:
  "heat_view lib e =
     Inr (emit [PlotlyChart (PxImshow (heatmap_data lib (filtered_rows e)))]
           ((emit [Header 4] e)
              \<lparr>mem := \<lparr>objs = (objs (mem e))
                                (fresh (mem e) := add_heat_columns (objs (mem e) (filtered_df e))),
                       fresh = Suc (fresh (mem e))\<rparr>\<rparr>))"
proof -
  define st where "st = mem e"
  define a where "a = filtered_df e"
  have m: "modify (fresh st) add_heat_columns (snd (copy_obj a st))
           = \<lparr>objs = (objs st)(fresh st := add_heat_columns (objs st a)),
              fresh = Suc (fresh st)\<rparr>"
    by (simp add: copy_obj_def alloc_def modify_def)
  have f: "fst (copy_obj a st) = fresh st"
    by (simp add: copy_obj_def alloc_simps)
  have p: "pivot lib (add_heat_columns (objs st a)) = Inr (heatmap_data lib (body (objs st a)))"
    by (rule pivot_add_heat_columns)
  have "heat_view lib e =
      (let e1 = emit [Header 4] e;
           e2 = e1\<lparr>mem := modify (fst (copy_obj a st)) add_heat_columns (snd (copy_obj a st))\<rparr>
       in case pivot lib (objs (mem e2) (fst (copy_obj a st))) of
            Inl err \<Rightarrow> Inl (err, e2)
          | Inr h \<Rightarrow> Inr (emit [PlotlyChart (PxImshow h)] e2))"
    by (simp add: heat_view_def Let_def emit_simps st_def a_def cong: sum.case_cong)
  also have "\<dots> = Inr (emit [PlotlyChart (PxImshow (heatmap_data lib (body (objs st a))))]
           ((emit [Header 4] e)
              \<lparr>mem := \<lparr>objs = (objs st)(fresh st := add_heat_columns (objs st a)),
                       fresh = Suc (fresh st)\<rparr>\<rparr>))"
    unfolding f m by (simp add: Let_def p)
  finally show ?thesis
    by (simp only: st_def a_def filtered_rows_def)
qed

lemma heat_view_effect:
  "\<exists>e'. heat_view lib e = Inr e' \<and> keeps_objects e e'
        \<and> objs (mem e') (fresh (mem e)) = add_heat_columns (objs (mem e) (filtered_df e))
        \<and> page e' = page e @ [Header 4,
              PlotlyChart (PxImshow (heatmap_data lib (filtered_rows e)))]"
  by (simp add: heat_view_eq keeps_objects_def emit_simps)

lemma top5_view_effect:
  "keeps_objects e (top5_view e)"
  "page (top5_view e) = page e @ [Header 9, PlotlyChart (PxLine
      (mask_obj (isin (map station (filtered_rows e)) (top_5_stations (filtered_rows e)))
         (objs (mem e) (filtered_df e))))]"
  by (simp_all add: top5_view_def Let_def emit_simps getitem_mask_def alloc_simps
      keeps_objects_def filtered_rows_def)

lemma diff_view_effect:
  "\<exists>e'. diff_view e = Inr e' \<and> df e' = df e \<and> filtered_df e' = filtered_df e
        \<and> fresh (mem e') = fresh (mem e)
        \<and> objs (mem e') (filtered_df e) = add_diff_columns (objs (mem e) (filtered_df e))
        \<and> body (objs (mem e') (filtered_df e)) = body (objs (mem e) (filtered_df e))
        \<and> (\<forall>b. b \<noteq> filtered_df e \<longrightarrow> objs (mem e') b = objs (mem e) b)"
  by (simp add: diff_view_eq emit_simps modify_simps body_add_diff_columns)

lemma render_effect:
  assumes "bound e"
  shows "\<exists>e'. render lib sel e = Inr e' \<and> df e' = df e \<and> filtered_df e' = filtered_df e
        \<and> objs (mem e') (df e) = objs (mem e) (df e)
        \<and> objs (mem e') (filtered_df e) = add_diff_columns (objs (mem e) (filtered_df e))
        \<and> (\<forall>b < fresh (mem e). b \<noteq> filtered_df e \<longrightarrow> objs (mem e') b = objs (mem e) b)"
proof -
  from assms have fa: "filtered_df e < fresh (mem e)" and da: "df e < fresh (mem e)"
    and ne: "df e \<noteq> filtered_df e"
    by (simp_all add: bound_def)
  let ?e3 = "pie_view (bar_view lib (time_view sel e))"
  have "keeps_objects e (time_view sel e)"
    using fa by (rule time_view_effect(1))
  also have "keeps_objects (time_view sel e) (bar_view lib (time_view sel e))"
    by (rule plain_views_keep(1))
  also have "keeps_objects (bar_view lib (time_view sel e)) ?e3"
    by (rule plain_views_keep(2))
  finally have k3: "keeps_objects e ?e3" .
  obtain e4 where e4: "heat_view lib ?e3 = Inr e4" and k34: "keeps_objects ?e3 e4"
    using heat_view_effect by blast
  let ?e7 = "stats_view lib (table_view (scatter_view e4))"
  note k3
  also note k34
  also have "keeps_objects e4 (scatter_view e4)"
    by (rule plain_views_keep(3))
  also have "keeps_objects (scatter_view e4) (table_view (scatter_view e4))"
    by (rule plain_views_keep(4))
  also have "keeps_objects (table_view (scatter_view e4)) ?e7"
    by (rule plain_views_keep(5))
  finally have k7: "keeps_objects e ?e7" .
  obtain e8 where e8: "diff_view ?e7 = Inr e8" and d8: "df e8 = df ?e7"
    and f8: "filtered_df e8 = filtered_df ?e7" and n8: "fresh (mem e8) = fresh (mem ?e7)"
    and w8: "objs (mem e8) (filtered_df ?e7) = add_diff_columns (objs (mem ?e7) (filtered_df ?e7))"
    and o8: "\<forall>b. b \<noteq> filtered_df ?e7 \<longrightarrow> objs (mem e8) b = objs (mem ?e7) b"
    using diff_view_effect by blast
  have k9: "keeps_objects e8 (top5_view e8)"
    by (rule top5_view_effect(1))
  have r: "render lib sel e = Inr (top5_view e8)"
    by (simp add: render_def e4 e8)
  from k7 have d7: "df ?e7 = df e" and f7: "filtered_df ?e7 = filtered_df e"
    and n7: "fresh (mem e) \<le> fresh (mem ?e7)"
    and o7: "\<forall>b < fresh (mem e). objs (mem ?e7) b = objs (mem e) b"
    by (simp_all add: keeps_objects_def)
  from k9 have d9: "df (top5_view e8) = df e8" and f9: "filtered_df (top5_view e8) = filtered_df e8"
    and o9: "\<forall>b < fresh (mem e8). objs (mem (top5_view e8)) b = objs (mem e8) b"
    by (simp_all add: keeps_objects_def)
  have up: "objs (mem (top5_view e8)) b = objs (mem e8) b" if "b < fresh (mem e)" for b
    using that o9 n7 n8 by auto
  have p1: "df (top5_view e8) = df e"
    by (simp add: d9 d8 d7)
  have p2: "filtered_df (top5_view e8) = filtered_df e"
    by (simp add: f9 f8 f7)
  have p3: "objs (mem (top5_view e8)) (df e) = objs (mem e) (df e)"
    using up [OF da] o8 o7 da ne by (simp add: f7)
  have p4: "objs (mem (top5_view e8)) (filtered_df e)
            = add_diff_columns (objs (mem e) (filtered_df e))"
    using up [OF fa] w8 o7 fa by (simp add: f7)
  have p5: "\<forall>b < fresh (mem e). b \<noteq> filtered_df e
              \<longrightarrow> objs (mem (top5_view e8)) b = objs (mem e) b"
    using up o8 o7 by (simp add: f7)
  from r p1 p2 p3 p4 p5 show ?thesis
    by blast
qed


lemma main_env_bound:
  "bound \<lparr>mem = snd (filter_stage 0 sel s1 s2 (loaded_store tbl)), df = 0,
          filtered_df = fst (filter_stage 0 sel s1 s2 (loaded_store tbl)), page = p\<rparr>"
  by (simp add: bound_def filter_stage_simps loaded_store_simps)

lemma main_never_raises:
  "fst (main lib tbl sel start_date end_date) \<noteq> Raised"
proof -
  obtain e' where "render lib sel
      \<lparr>mem = snd (filter_stage 0 sel start_date end_date (loaded_store tbl)), df = 0,
       filtered_df = fst (filter_stage 0 sel start_date end_date (loaded_store tbl)),
       page = startup_page tbl\<rparr> = Inr e'"
    using render_effect [OF main_env_bound] by blast
  then show ?thesis
    by (simp add: main_def Let_def loaded_store_simps)
qed

lemma main_finishes:
  assumes "tbl \<noteq> []" and "start_date \<le> end_date"
    and "filter_df tbl sel start_date end_date \<noteq> []"
  shows "fst (main lib tbl sel start_date end_date) = Finished"
proof -
  obtain e' where "render lib sel
      \<lparr>mem = snd (filter_stage 0 sel start_date end_date (loaded_store tbl)), df = 0,
       filtered_df = fst (filter_stage 0 sel start_date end_date (loaded_store tbl)),
       page = startup_page tbl\<rparr> = Inr e'"
    using render_effect [OF main_env_bound] by blast
  with assms show ?thesis
    by (simp add: main_def Let_def loaded_store_simps main_filtered_rows)
qed




section \<open>The ranking of section 9\<close>

text \<open>
  Inserting by descending value into a list that is ranked, an entry whose key is
  smaller than every key of the list, keeps the list ranked: the insertion sort behind
  \<open>sort_key\<close> is stable.
\<close>

lemma insort_ranks_before:
  assumes "sorted_wrt ranks_before ys" and "\<forall>y \<in> set ys. fst x < fst y"
  shows "sorted_wrt ranks_before (insort_key (\<lambda>p. - snd p) x ys)"
  using assms
proof (induction ys)
  case Nil
  then show ?case by simp
next
  case (Cons y ys)
  show ?case
  proof (cases "snd y \<le> snd x")
    case True
    have "ranks_before x z" if "z \<in> set (y # ys)" for z
    proof -
      from that Cons.prems(1) have "snd z \<le> snd y"
        by (auto simp add: ranks_before_def)
      moreover from that Cons.prems(2) have "fst x < fst z"
        by auto
      ultimately show ?thesis
        using True by (auto simp add: ranks_before_def)
    qed
    with Cons.prems(1) True show ?thesis
      by simp
  next
    case False
    then have "ranks_before y x"
      by (simp add: ranks_before_def)
    moreover have "sorted_wrt ranks_before (insort_key (\<lambda>p. - snd p) x ys)"
      using Cons.IH Cons.prems by simp
    ultimately show ?thesis
      using False Cons.prems(1) by (auto simp add: set_insort_key)
  qed
qed

lemma sort_key_ranks_before:
  assumes "sorted_wrt (<) (map fst xs)"
  shows "sorted_wrt ranks_before (sort_key (\<lambda>p. - snd p) xs)"
  using assms
proof (induction xs)
  case Nil
  then show ?case by simp
next
  case (Cons x xs)
  then have "sorted_wrt ranks_before (sort_key (\<lambda>p. - snd p) xs)"
    by simp
  moreover from Cons.prems have "\<forall>y \<in> set (sort_key (\<lambda>p. - snd p) xs). fst x < fst y"
    by auto
  ultimately show ?case
    by (simp add: insort_ranks_before)
qed

lemma groupby_sum_down:
  "groupby_sum station boarding_down f
     = map (\<lambda>k. (k, down_total64 f k)) (sort (remdups (map station f)))"
  by (simp add: groupby_sum_def group_keys_def down_total64_def down_total_def)

lemma nlargest_ranking:
  fixes f :: frame
  defines "g \<equiv> groupby_sum station boarding_down f"
  shows "distinct (map fst (nlargest n g))"
    and "set (map fst (nlargest n g)) \<subseteq> station ` set f"
    and "length (nlargest n g) = min n (card (station ` set f))"
    and "sorted_wrt (outranks64 f) (map fst (nlargest n g))"
    and "\<forall>s \<in> set (map fst (nlargest n g)).
           \<forall>t \<in> station ` set f - set (map fst (nlargest n g)). outranks64 f s t"
proof -
  let ?srt = "sort_key (\<lambda>p. - snd p) g"
  have keys: "map fst g = sort (remdups (map station f))"
    by (simp add: g_def groupby_sum_down comp_def)
  have val: "snd p = down_total64 f (fst p)" if "p \<in> set g" for p
    using that by (auto simp add: g_def groupby_sum_down)
  have "sorted_wrt (<) (map fst g)"
    by (simp add: keys strict_sorted_iff)
  then have rb: "sorted_wrt ranks_before ?srt"
    by (rule sort_key_ranks_before)
  have "sorted_wrt (\<lambda>p q. outranks64 f (fst p) (fst q)) ?srt"
  proof (rule sorted_wrt_mono_rel [OF _ rb])
    fix p q
    assume "p \<in> set ?srt" "q \<in> set ?srt" "ranks_before p q"
    then show "outranks64 f (fst p) (fst q)"
      using val [of p] val [of q] by (simp add: ranks_before_def outranks64_def)
  qed
  then have so: "sorted_wrt (outranks64 f) (map fst ?srt)"
    by (simp add: sorted_wrt_map)
  have "mset (map fst ?srt) = mset (map fst g)"
    by simp
  then have "distinct (map fst ?srt) \<longleftrightarrow> distinct (map fst g)"
    by (rule mset_eq_imp_distinct_iff)
  then have ds: "distinct (map fst ?srt)"
    by (simp add: keys)
  have st: "set (map fst ?srt) = station ` set f"
    using keys by (metis set_map set_remdups set_sort)
  have tk: "map fst (nlargest n g) = take n (map fst ?srt)"
    by (simp add: nlargest_def take_map)
  show "distinct (map fst (nlargest n g))"
    unfolding tk using ds by (rule distinct_take)
  show "set (map fst (nlargest n g)) \<subseteq> station ` set f"
    unfolding tk using st set_take_subset by fastforce
  have "length g = card (station ` set f)"
    using keys by (metis length_map length_remdups_card_conv length_sort set_map)
  then show "length (nlargest n g) = min n (card (station ` set f))"
    by (simp add: nlargest_def min.commute)
  show "sorted_wrt (outranks64 f) (map fst (nlargest n g))"
    unfolding tk using so by (rule sorted_wrt_take)
  have ap: "sorted_wrt (outranks64 f) (take n (map fst ?srt) @ drop n (map fst ?srt))"
    using so by simp
  have "station ` set f - set (take n (map fst ?srt)) \<subseteq> set (drop n (map fst ?srt))"
    using st by (metis Diff_subset_conv append_take_drop_id set_append subset_refl)
  with ap show "\<forall>s \<in> set (map fst (nlargest n g)).
           \<forall>t \<in> station ` set f - set (map fst (nlargest n g)). outranks64 f s t"
    unfolding tk sorted_wrt_append by blast
qed

lemma top_5_data_eq_filter:
  "top_5_data f = filter (\<lambda>r. station r \<in> set (top_5_stations f)) f"
proof -
  have "isin (map station f) (top_5_stations f)
        = map (\<lambda>r. station r \<in> set (top_5_stations f)) f"
    by (simp add: isin_def)
  then show ?thesis
    by (simp only: top_5_data_def select_rows_map)
qed

lemma outranks64_exact:
  assumes "int64 (down_total f s)" and "int64 (down_total f t)"
  shows "outranks64 f s t \<longleftrightarrow> outranks f s t"
  using assms by (simp add: outranks64_def outranks_def down_total64_def wrap64_id)

text \<open>
  Station "A" has \<^verbatim>\<open>2^63\<close> down-direction boardings in two rows and station "B" has one.
  The 64-bit sum of "A" is \<^verbatim>\<open>-2^63\<close>: section 9 puts "B" before "A".
\<close>

theorem top_5_wraps:
  "top_5_stations ex_big = [stB, stA]
   \<and> down_total ex_big stA = 9223372036854775808
   \<and> down_total ex_big stB = 1
   \<and> down_total64 ex_big stA = - 9223372036854775808
   \<and> outranks ex_big stA stB"
  by (simp add: top_5_stations_def nlargest_def groupby_sum_def group_keys_def
      group_rows_def ex_big_def mk_row_def stA_def stB_def wrap64_def outranks_def
      down_total_def down_total64_def)

text \<open>
  Claim C4, amended. The five stations of section 9 are ranked by their summed
  down-direction boardings as the script has them, in 64 bits, descending, stations with
  equal sums by name ascending; every station of the table that is not among them ranks
  after each of them. Whenever the sum of every station fits in 64 bits, this is the
  ranking by the exact sums. The stations are at most five, and exactly five when the
  table has five distinct stations or more. The rows of the section are the rows of the
  filtered table that belong to these stations, in their original order, and the line
  chart of the section receives a frame with these rows.
\<close>

theorem top_5_ranking:
  "distinct (top_5_stations f)
   \<and> set (top_5_stations f) \<subseteq> station ` set f
   \<and> length (top_5_stations f) = min 5 (card (station ` set f))
   \<and> sorted_wrt (outranks64 f) (top_5_stations f)
   \<and> (\<forall>s \<in> set (top_5_stations f).
         \<forall>t \<in> station ` set f - set (top_5_stations f). outranks64 f s t)
   \<and> ((\<forall>s \<in> station ` set f. int64 (down_total f s)) \<longrightarrow>
        sorted_wrt (outranks f) (top_5_stations f)
        \<and> (\<forall>s \<in> set (top_5_stations f).
              \<forall>t \<in> station ` set f - set (top_5_stations f). outranks f s t))
   \<and> top_5_data f = filter (\<lambda>r. station r \<in> set (top_5_stations f)) f
   \<and> subseq (top_5_data f) f
   \<and> (\<exists>ob. page (top5_view e) = page e @ [Header 9, PlotlyChart (PxLine ob)]
          \<and> body ob = top_5_data (filtered_rows e))"
proof -
  note n = nlargest_ranking [where f = f and n = 5, folded top_5_stations_def]
  have l: "length (top_5_stations f) = min 5 (card (station ` set f))"
    using n(3) by (simp add: top_5_stations_def)
  have x: "sorted_wrt (outranks f) (top_5_stations f)
        \<and> (\<forall>s \<in> set (top_5_stations f).
              \<forall>t \<in> station ` set f - set (top_5_stations f). outranks f s t)"
    if h: "\<forall>s \<in> station ` set f. int64 (down_total f s)"
  proof -
    have eq: "outranks64 f s t \<longleftrightarrow> outranks f s t"
      if "s \<in> station ` set f" and "t \<in> station ` set f" for s t
      using that h by (intro outranks64_exact) blast+
    have "sorted_wrt (outranks f) (top_5_stations f)"
    proof (rule sorted_wrt_mono_rel [OF _ n(4)])
      fix s t
      assume "s \<in> set (top_5_stations f)" "t \<in> set (top_5_stations f)" "outranks64 f s t"
      with n(2) eq show "outranks f s t"
        by blast
    qed
    moreover have "\<forall>s \<in> set (top_5_stations f).
              \<forall>t \<in> station ` set f - set (top_5_stations f). outranks f s t"
      using n(5) n(2) eq by blast
    ultimately show ?thesis
      by (rule conjI)
  qed
  have s: "subseq (top_5_data f) f"
    by (simp add: top_5_data_eq_filter)
  have p: "\<exists>ob. page (top5_view e) = page e @ [Header 9, PlotlyChart (PxLine ob)]
          \<and> body ob = top_5_data (filtered_rows e)"
    by (simp add: top5_view_effect(2) body_mask_obj top_5_data_def filtered_rows_def)
  from n(1) n(2) l n(4) n(5) x top_5_data_eq_filter [of f] s p show ?thesis
    by blast
qed

theorem top_5_ranking_witness:
  "top_5_stations ex_many = [stB, stD, stA, stC, stE]
   \<and> sorted_wrt (outranks ex_many) [stB, stD, stA, stC, stE]
   \<and> list_all (\<lambda>s. int64 (down_total ex_many s)) [stA, stB, stC, stD, stE, stF]
   \<and> map (down_total ex_many) [stB, stD, stA, stC, stE, stF] = [9, 7, 5, 5, 5, 1]
   \<and> length (top_5_stations ex_many) = 5
   \<and> top_5_data ex_many =
       [mk_row (ts 2023 1) stE 5 0 0 0, mk_row (ts 2023 1) stD 7 0 0 0,
        mk_row (ts 2023 1) stC 5 0 0 0, mk_row (ts 2023 1) stB 4 0 0 0,
        mk_row (ts 2023 1) stA 5 0 0 0, mk_row (ts 2023 2) stB 5 0 0 0]"
proof -
  note t = top_5_ranking [of ex_many ex_env]
  have e: "top_5_stations ex_many = [stB, stD, stA, stC, stE]"
    by (simp add: top_5_stations_def nlargest_def groupby_sum_def group_keys_def
        group_rows_def ex_many_def mk_row_def wrap64_def
        stA_def stB_def stC_def stD_def stE_def stF_def)
  have v: "map (down_total ex_many) [stB, stD, stA, stC, stE, stF] = [9, 7, 5, 5, 5, 1]"
    by (simp add: down_total_def group_rows_def ex_many_def mk_row_def
        stA_def stB_def stC_def stD_def stE_def stF_def)
  then have i: "list_all (\<lambda>s. int64 (down_total ex_many s)) [stA, stB, stC, stD, stE, stF]"
    by (simp add: int64_def)
  have "station ` set ex_many = set [stA, stB, stC, stD, stE, stF]"
    by (auto simp add: ex_many_def mk_row_def)
  with i have h: "\<forall>s \<in> station ` set ex_many. int64 (down_total ex_many s)"
    by (simp only: list_all_iff)
  from t h have "sorted_wrt (outranks ex_many) (top_5_stations ex_many)"
    by blast
  then have s: "sorted_wrt (outranks ex_many) [stB, stD, stA, stC, stE]"
    by (simp only: e)
  from t have "top_5_data ex_many
      = filter (\<lambda>r. station r \<in> set (top_5_stations ex_many)) ex_many"
    by blast
  then have d: "top_5_data ex_many =
       [mk_row (ts 2023 1) stE 5 0 0 0, mk_row (ts 2023 1) stD 7 0 0 0,
        mk_row (ts 2023 1) stC 5 0 0 0, mk_row (ts 2023 1) stB 4 0 0 0,
        mk_row (ts 2023 1) stA 5 0 0 0, mk_row (ts 2023 2) stB 5 0 0 0]"
    unfolding e
    by (simp add: ex_many_def mk_row_def stA_def stB_def stC_def stD_def stE_def stF_def)
  have n: "length (top_5_stations ex_many) = 5"
    by (simp add: e)
  from e s i v n d show ?thesis
    by (intro conjI)
qed

section \<open>The totals of section 3\<close>

lemma total_data_stations:
  "map total_station (total_data f) = sort (remdups (map station f))"
  by (simp add: total_data_def group_keys_def comp_def Let_def)

lemma total_data_rows:
  assumes "t \<in> set (total_data f)"
  shows "sum_boarding_down t = wrap64 (down_sum f (total_station t))"
    and "sum_boarding_up t = wrap64 (up_sum f (total_station t))"
    and "total_boarding t = wrap64 (sum_boarding_down t + sum_boarding_up t)"
    and "total_station t \<in> set (map station f)"
  using assms by (auto simp add: total_data_def group_keys_def down_sum_def up_sum_def Let_def)

lemma total_data_rows_exact:
  assumes "totals_fit f" and "t \<in> set (total_data f)"
  shows "sum_boarding_down t
           = sum_list (map boarding_down (filter (\<lambda>r. station r = total_station t) f))"
    and "sum_boarding_up t
           = sum_list (map boarding_up (filter (\<lambda>r. station r = total_station t) f))"
    and "total_boarding t = sum_boarding_down t + sum_boarding_up t"
proof -
  note r = total_data_rows [OF assms(2)]
  from assms(1) r(4) have i: "int64 (down_sum f (total_station t))"
    "int64 (up_sum f (total_station t))"
    "int64 (down_sum f (total_station t) + up_sum f (total_station t))"
    unfolding totals_fit_def by blast+
  show d: "sum_boarding_down t
           = sum_list (map boarding_down (filter (\<lambda>r. station r = total_station t) f))"
    using r(1) i(1) by (simp add: wrap64_id down_sum_def group_rows_def)
  show u: "sum_boarding_up t
           = sum_list (map boarding_up (filter (\<lambda>r. station r = total_station t) f))"
    using r(2) i(2) by (simp add: wrap64_id up_sum_def group_rows_def)
  have "sum_boarding_down t = down_sum f (total_station t)"
    "sum_boarding_up t = up_sum f (total_station t)"
    using r(1) r(2) i(1) i(2) by (simp_all add: wrap64_id)
  with r(3) i(3) show "total_boarding t = sum_boarding_down t + sum_boarding_up t"
    by (simp add: wrap64_id)
qed

lemma sum_list_delta:
  fixes c :: int
  assumes "distinct ks" and "a \<in> set ks"
  shows "(\<Sum>k\<leftarrow>ks. if a = k then c else 0) = c"
proof -
  have z: "(\<Sum>k\<leftarrow>xs. if a = k then c else 0) = 0" if "a \<notin> set xs" for xs
    using that by (induction xs) auto
  from assms show ?thesis
    by (induction ks) (auto simp add: z)
qed

lemma sum_over_groups:
  fixes g :: "'r \<Rightarrow> int"
  assumes "distinct ks" and "key ` set f \<subseteq> set ks"
  shows "(\<Sum>k\<leftarrow>ks. sum_list (map g (filter (\<lambda>r. key r = k) f))) = sum_list (map g f)"
  using assms(2)
proof (induction f)
  case Nil
  show ?case by simp
next
  case (Cons r f)
  have "(\<Sum>k\<leftarrow>ks. sum_list (map g (filter (\<lambda>x. key x = k) (r # f))))
        = (\<Sum>k\<leftarrow>ks. (if key r = k then g r else 0)
                      + sum_list (map g (filter (\<lambda>x. key x = k) f)))"
    by (rule arg_cong [where f = sum_list]) (simp add: fun_eq_iff)
  also have "\<dots> = (\<Sum>k\<leftarrow>ks. if key r = k then g r else 0)
                  + (\<Sum>k\<leftarrow>ks. sum_list (map g (filter (\<lambda>x. key x = k) f)))"
    by (rule sum_list_addf)
  also have "(\<Sum>k\<leftarrow>ks. if key r = k then g r else 0) = g r"
    using assms(1) Cons.prems by (simp add: sum_list_delta)
  also have "(\<Sum>k\<leftarrow>ks. sum_list (map g (filter (\<lambda>x. key x = k) f))) = sum_list (map g f)"
    using Cons by simp
  finally show ?case
    by simp
qed

lemma total_data_sum:
  assumes "totals_fit f"
  shows "sum_list (map total_boarding (total_data f))
     = sum_list (map (\<lambda>r. boarding_down r + boarding_up r) f)"
proof -
  let ?ks = "sort (remdups (map station f))"
  let ?g = "\<lambda>k. sum_list (map (\<lambda>r. boarding_down r + boarding_up r)
                                (filter (\<lambda>r. station r = k) f))"
  have d: "distinct ?ks" and s: "station ` set f \<subseteq> set ?ks"
    by simp_all
  have "total_boarding t = ?g (total_station t)" if "t \<in> set (total_data f)" for t
    using total_data_rows_exact [OF assms that] by (simp add: sum_list_addf)
  then have "map total_boarding (total_data f) = map (\<lambda>t. ?g (total_station t)) (total_data f)"
    by (intro map_cong [OF refl])
  also have "\<dots> = map ?g (map total_station (total_data f))"
    by (simp only: map_map comp_def)
  also have "\<dots> = map ?g ?ks"
    by (simp only: total_data_stations)
  finally have "sum_list (map total_boarding (total_data f)) = (\<Sum>k\<leftarrow>?ks. ?g k)"
    by (rule arg_cong)
  also have "\<dots> = sum_list (map (\<lambda>r. boarding_down r + boarding_up r) f)"
    using d s by (rule sum_over_groups)
  finally show ?thesis .
qed

lemma proportions_sum:
  fixes vs :: "int list"
  assumes "sum_list vs \<noteq> 0"
  shows "(\<Sum>v\<leftarrow>vs. (of_int v :: rat) / of_int (sum_list vs)) = 1"
proof -
  have "(\<Sum>v\<leftarrow>vs. (of_int v :: rat) / c) = of_int (sum_list vs) / c" for c
    by (induction vs) (simp_all add: add_divide_distrib)
  with assms show ?thesis
    by simp
qed

lemma pie_view_page:
  "page (pie_view e) = page e @ [Header 3, PlotlyChart (PxPie (total_data (filtered_rows e)))]"
  by (simp add: pie_view_def emit_simps)

lemma total_data_ex_ab:
  "total_data ex_ab =
          [\<lparr>total_station = stA, sum_boarding_down = 60, sum_boarding_up = 40,
            total_boarding = 100\<rparr>,
           \<lparr>total_station = stB, sum_boarding_down = 100, sum_boarding_up = 200,
            total_boarding = 300\<rparr>]"
  by (simp add: total_data_def group_keys_def group_rows_def Let_def ex_ab_def mk_row_def
      stA_def stB_def wrap64_def)

text \<open>
  Station "A" has 100 boardings in total and station "B" 300. The pie chart receives
  the values 100 and 300; the proportions 1/4 and 3/4 are not computed by the script.
\<close>

theorem pie_values_are_totals:
  "page (pie_view \<lparr>mem = \<lparr>objs = (\<lambda>a. \<lparr>body = ex_ab, extra = []\<rparr>), fresh = 2\<rparr>,
                   df = 0, filtered_df = 1, page = ([] :: rat element list)\<rparr>)
     = [Header 3, PlotlyChart (PxPie
          [\<lparr>total_station = stA, sum_boarding_down = 60, sum_boarding_up = 40,
            total_boarding = 100\<rparr>,
           \<lparr>total_station = stB, sum_boarding_down = 100, sum_boarding_up = 200,
            total_boarding = 300\<rparr>])]
   \<and> map (\<lambda>t. (of_int (total_boarding t) :: rat)) (total_data ex_ab) = [100, 300]
   \<and> map (\<lambda>t. (of_int (total_boarding t) :: rat)
               / of_int (sum_list (map total_boarding (total_data ex_ab)))) (total_data ex_ab)
       = [1 / 4, 3 / 4]
   \<and> map (\<lambda>t. (of_int (total_boarding t) :: rat)) (total_data ex_ab)
       \<noteq> map (\<lambda>t. (of_int (total_boarding t) :: rat)
               / of_int (sum_list (map total_boarding (total_data ex_ab)))) (total_data ex_ab)"
  by (simp add: pie_view_page filtered_rows_def total_data_ex_ab)

text \<open>
  The totals are 64-bit values too: station "A" of this table has \<^verbatim>\<open>2^63\<close> boardings,
  and the value the chart receives for it is \<^verbatim>\<open>-2^63\<close>.
\<close>

lemma totals_wrap_around:
  "map total_boarding (total_data ex_big) = [- 9223372036854775808, 1]
   \<and> map (\<lambda>s. down_sum ex_big s + up_sum ex_big s) [stA, stB] = [9223372036854775808, 1]
   \<and> \<not> totals_fit ex_big"
  by (simp add: total_data_def group_keys_def group_rows_def Let_def ex_big_def mk_row_def
      stA_def stB_def wrap64_def down_sum_def up_sum_def totals_fit_def int64_def)

text \<open>
  Claim C5, amended. Section 3 gives every station of the filtered table, in ascending
  order of name and also when its total is 0, its total boardings: the sum of its
  down-direction boardings plus the sum of its up-direction boardings, each computed in
  64 bits. These totals are the values the pie chart receives; the script computes no
  proportion and divides nowhere. Whenever the two sums of every station and their sum
  fit in 64 bits, the totals are the exact sums, they add up to the boardings of the
  whole filtered table, and the proportions total / sum of totals that they determine
  add up to 1 whenever the sum of the totals is not 0; for counts that are not negative
  that is whenever some station has a total that is not 0.
\<close>

theorem station_totals:
  "page (pie_view e) = page e @ [Header 3, PlotlyChart (PxPie (total_data (filtered_rows e)))]
   \<and> map total_station (total_data f) = sort (remdups (map station f))
   \<and> (\<forall>t \<in> set (total_data f).
         sum_boarding_down t = wrap64 (down_sum f (total_station t))
         \<and> sum_boarding_up t = wrap64 (up_sum f (total_station t))
         \<and> total_boarding t = wrap64 (sum_boarding_down t + sum_boarding_up t))
   \<and> (totals_fit f \<longrightarrow>
        (\<forall>t \<in> set (total_data f).
           sum_boarding_down t
             = sum_list (map boarding_down (filter (\<lambda>r. station r = total_station t) f))
           \<and> sum_boarding_up t
             = sum_list (map boarding_up (filter (\<lambda>r. station r = total_station t) f))
           \<and> total_boarding t = sum_boarding_down t + sum_boarding_up t)
        \<and> sum_list (map total_boarding (total_data f))
            = sum_list (map (\<lambda>r. boarding_down r + boarding_up r) f)
        \<and> (sum_list (map total_boarding (total_data f)) \<noteq> 0 \<longrightarrow>
             (\<Sum>t\<leftarrow>total_data f. (of_int (total_boarding t) :: rat)
                 / of_int (sum_list (map total_boarding (total_data f)))) = 1)
        \<and> ((\<forall>r \<in> set f. 0 \<le> boarding_down r \<and> 0 \<le> boarding_up r) \<longrightarrow>
             (sum_list (map total_boarding (total_data f)) = 0
                \<longleftrightarrow> (\<forall>t \<in> set (total_data f). total_boarding t = 0))))"
proof -
  let ?vs = "map total_boarding (total_data f)"
  note p = pie_view_page [of e]
  note a = total_data_stations [of f]
  have w: "\<forall>t \<in> set (total_data f).
         sum_boarding_down t = wrap64 (down_sum f (total_station t))
         \<and> sum_boarding_up t = wrap64 (up_sum f (total_station t))
         \<and> total_boarding t = wrap64 (sum_boarding_down t + sum_boarding_up t)"
    using total_data_rows [of _ f] by blast
  have b: "\<forall>t \<in> set (total_data f).
         sum_boarding_down t
           = sum_list (map boarding_down (filter (\<lambda>r. station r = total_station t) f))
         \<and> sum_boarding_up t
           = sum_list (map boarding_up (filter (\<lambda>r. station r = total_station t) f))
         \<and> total_boarding t = sum_boarding_down t + sum_boarding_up t"
    if "totals_fit f"
    using total_data_rows_exact [OF that] by blast
  have c: "sum_list ?vs = sum_list (map (\<lambda>r. boarding_down r + boarding_up r) f)"
    if "totals_fit f"
    using that by (rule total_data_sum)
  have d: "(\<Sum>t\<leftarrow>total_data f. (of_int (total_boarding t) :: rat) / of_int (sum_list ?vs)) = 1"
    if "sum_list ?vs \<noteq> 0"
    using proportions_sum [OF that] by (simp add: comp_def)
  have e: "sum_list ?vs = 0 \<longleftrightarrow> (\<forall>t \<in> set (total_data f). total_boarding t = 0)"
    if fit: "totals_fit f" and n: "\<forall>r \<in> set f. 0 \<le> boarding_down r \<and> 0 \<le> boarding_up r"
  proof -
    have "0 \<le> v" if "v \<in> set ?vs" for v
    proof -
      from that obtain t where t: "t \<in> set (total_data f)" "v = total_boarding t"
        by auto
      have "0 \<le> sum_list (map boarding_down (filter (\<lambda>r. station r = total_station t) f))"
        using n by (intro sum_list_nonneg) auto
      moreover
      have "0 \<le> sum_list (map boarding_up (filter (\<lambda>r. station r = total_station t) f))"
        using n by (intro sum_list_nonneg) auto
      ultimately show ?thesis
        using total_data_rows_exact [OF fit t(1)] t(2) by simp
    qed
    then have "sum_list ?vs = 0 \<longleftrightarrow> (\<forall>v \<in> set ?vs. v = 0)"
      by (rule sum_list_nonneg_eq_0_iff)
    then show ?thesis
      by simp
  qed
  from b c d e have x: "totals_fit f \<longrightarrow>
        (\<forall>t \<in> set (total_data f).
           sum_boarding_down t
             = sum_list (map boarding_down (filter (\<lambda>r. station r = total_station t) f))
           \<and> sum_boarding_up t
             = sum_list (map boarding_up (filter (\<lambda>r. station r = total_station t) f))
           \<and> total_boarding t = sum_boarding_down t + sum_boarding_up t)
        \<and> sum_list ?vs = sum_list (map (\<lambda>r. boarding_down r + boarding_up r) f)
        \<and> (sum_list ?vs \<noteq> 0 \<longrightarrow>
             (\<Sum>t\<leftarrow>total_data f. (of_int (total_boarding t) :: rat) / of_int (sum_list ?vs)) = 1)
        \<and> ((\<forall>r \<in> set f. 0 \<le> boarding_down r \<and> 0 \<le> boarding_up r) \<longrightarrow>
             (sum_list ?vs = 0 \<longleftrightarrow> (\<forall>t \<in> set (total_data f). total_boarding t = 0)))"
    by blast
  from p a w x show ?thesis
    by (intro conjI)
qed

theorem station_totals_witness:
  "totals_fit ex_ab
   \<and> total_data ex_ab =
          [\<lparr>total_station = stA, sum_boarding_down = 60, sum_boarding_up = 40,
            total_boarding = 100\<rparr>,
           \<lparr>total_station = stB, sum_boarding_down = 100, sum_boarding_up = 200,
            total_boarding = 300\<rparr>]
   \<and> sum_list (map total_boarding (total_data ex_ab)) = 400
   \<and> sum_list (map (\<lambda>r. boarding_down r + boarding_up r) ex_ab) = 400
   \<and> (\<Sum>t\<leftarrow>total_data ex_ab. (of_int (total_boarding t) :: rat)
            / of_int (sum_list (map total_boarding (total_data ex_ab)))) = 1"
proof -
  have f: "totals_fit ex_ab"
    by (simp add: totals_fit_def down_sum_def up_sum_def group_rows_def ex_ab_def mk_row_def
        stA_def stB_def int64_def)
  note t = total_data_ex_ab
  note th = station_totals [of ex_env ex_ab]
  from th f have c: "sum_list (map total_boarding (total_data ex_ab))
      = sum_list (map (\<lambda>r. boarding_down r + boarding_up r) ex_ab)"
    by blast
  have r: "sum_list (map (\<lambda>r. boarding_down r + boarding_up r) ex_ab) = 400"
    by (simp add: ex_ab_def mk_row_def)
  with c have s: "sum_list (map total_boarding (total_data ex_ab)) = 400"
    by simp
  then have n: "sum_list (map total_boarding (total_data ex_ab)) \<noteq> 0"
    by simp
  from th f n
  have "(\<Sum>t\<leftarrow>total_data ex_ab. (of_int (total_boarding t) :: rat)
            / of_int (sum_list (map total_boarding (total_data ex_ab)))) = 1"
    by blast
  with f t s r show ?thesis
    by (intro conjI)
qed

end
